theory Spec2Isabelle
  imports Main
begin

section \<open>Data model\<close>

text \<open>
  The booking engine of the table-reservation backend: the booking controller
  (\<^verbatim>\<open>createBooking\<close>, \<^verbatim>\<open>cancelBooking\<close>) and the search of the restaurant
  controller (\<^verbatim>\<open>searchRestaurants\<close>).  The repository holds two versions of the
  booking controller.  Their \<^verbatim>\<open>createBooking\<close> is the same function (the first
  version only logs more); their \<^verbatim>\<open>cancelBooking\<close> differ and are both embedded:
  \<open>cancelBooking\<close> is the first version (owner or admin, slot pushed back), and
  \<open>cancelBookingV2\<close> the second (owner only, merged 404, slot pushed back and sorted).

  Object ids are natural numbers.  A JavaScript \<^verbatim>\<open>Date\<close> is its number of
  milliseconds since the epoch, and every date is a valid one.  Numbers are integers.
  Mongoose documents are records; the restaurant collection is a map from ids to
  documents; the booking collection is a list in which a booking's id is its position,
  so that a new document always receives an unused id (bookings are never deleted).
  The field \<^verbatim>\<open>_id\<close> is \<open>tableId\<close> on a table definition and \<open>uid\<close> on a user; the
  fields \<^verbatim>\<open>date\<close> and \<^verbatim>\<open>tableSize\<close> of a booking are \<open>bookingDate\<close> and
  \<open>bookedTableSize\<close>.

  A handler is a function from the state of the database to its response and the new
  state: \<open>Inl\<close> an error response, \<open>Inr\<close> the booking sent back.  The handlers run one
  after the other.  Emails and notification records do not change the collections above
  and are left out, as are failures of the database itself.
\<close>

type_synonym oid = nat
type_synonym instant = int

record tableDefinition =
  tableId :: oid
  tableSize :: int
  availableTimes :: "string list"

record dateAvailability =
  date :: instant
  tables :: "tableDefinition list"

record restaurant =
  isApproved :: bool
  addressCity :: string
  addressZip :: string
  availableTables :: "dateAvailability list"
  timesBookedToday :: int

record booking =
  userId :: oid
  restaurantId :: oid
  bookingDate :: instant
  time :: string
  partySize :: int
  bookedTableSize :: int
  bookedTableDefinitionId :: "oid option"
  status :: string

record user =
  uid :: oid
  role :: string

record state =
  restaurants :: "oid \<rightharpoonup> restaurant"
  bookings :: "booking list"

text \<open>
  A value of a JSON request body, as far as \<^verbatim>\<open>partySize\<close> needs it: absent, a number
  (an integer in the range where doubles are exact) or a string.
\<close>

datatype jsval = JUndefined | JNum int | JStr string

text \<open>
  The body of a booking request.  \<open>reqRestaurantId\<close> and \<open>reqDate\<close> are \<open>None\<close> when the
  field is absent or empty; \<open>reqDate\<close> carries the instant that \<^verbatim>\<open>moment(date)\<close> denotes.
  An absent \<open>reqTime\<close> is the empty string: both are falsy in the source.
\<close>

record bookingRequest =
  reqRestaurantId :: "oid option"
  reqDate :: "instant option"
  reqTime :: string
  reqPartySize :: jsval

datatype error =
    MissingFields
  | InvalidPartySize
  | RestaurantNotFound
  | NoAvailabilityForDate
  | NoSuitableTable
  | BookingNotFound
  | NotAuthorized
  | AlreadyCancelled
  | BookingNotFoundOrAlreadyCancelled
  | InvalidTimeFormat
  | ServerError

section \<open>JavaScript helpers\<close>

definition truthy :: "jsval \<Rightarrow> bool" where
  "truthy v = (case v of JUndefined \<Rightarrow> False | JNum n \<Rightarrow> n \<noteq> 0 | JStr s \<Rightarrow> s \<noteq> [])"

definition isSpace :: "char \<Rightarrow> bool" where
  "isSpace c = (c \<in> set [CHR '' '', CHR 0x09, CHR 0x0A, CHR 0x0B, CHR 0x0C, CHR 0x0D])"

definition isDigit :: "char \<Rightarrow> bool" where
  "isDigit c = (c \<in> set ''0123456789'')"

definition digitVal :: "char \<Rightarrow> int" where
  "digitVal c = int (of_char c) - 48"

definition digitsVal :: "string \<Rightarrow> int" where
  "digitsVal ds = foldl (\<lambda>acc c. acc * 10 + digitVal c) 0 ds"

text \<open>
  \<^verbatim>\<open>parseInt(s, 10)\<close>: leading white space (here the ASCII one) is skipped, one sign
  is read, then the longest run of decimal digits; \<open>None\<close> is \<^verbatim>\<open>NaN\<close>.
\<close>

definition parseIntStr :: "string \<Rightarrow> int option" where
  "parseIntStr s =
     (let s1 = dropWhile isSpace s;
          neg = (case s1 of [] \<Rightarrow> False | c # _ \<Rightarrow> c = CHR ''-'');
          s2 = (case s1 of [] \<Rightarrow> [] | c # cs \<Rightarrow> if c = CHR ''-'' \<or> c = CHR ''+'' then cs else s1);
          ds = takeWhile isDigit s2
      in if ds = [] then None
         else Some (if neg then - digitsVal ds else digitsVal ds))"

text \<open>\<^verbatim>\<open>parseInt(v, 10)\<close> on a body value: the value is first converted to a string.\<close>

definition parseInt :: "jsval \<Rightarrow> int option" where
  "parseInt v = (case v of JUndefined \<Rightarrow> None | JNum n \<Rightarrow> Some n | JStr s \<Rightarrow> parseIntStr s)"

text \<open>
  \<^verbatim>\<open>moment(d).utc().format('YYYY-MM-DD')\<close> prints the UTC calendar day of the instant
  \<open>d\<close>, and two instants print the same text exactly when they lie in the same UTC day;
  \<^verbatim>\<open>moment(d).format('YYYY-MM-DD')\<close> does the same for the calendar day of the
  server's zone, taken as a fixed offset of \<open>tz\<close> minutes east of UTC.
\<close>

definition msPerDay :: int where
  "msPerDay = 86400000"

definition utcDay :: "instant \<Rightarrow> int" where
  "utcDay d = d div msPerDay"

definition localDay :: "int \<Rightarrow> instant \<Rightarrow> int" where
  "localDay tz d = (d + tz * 60000) div msPerDay"

text \<open>\<^verbatim>\<open>moment(d).utc().startOf('day').toDate()\<close>\<close>

definition startOfUtcDay :: "instant \<Rightarrow> instant" where
  "startOfUtcDay d = utcDay d * msPerDay"

text \<open>
  \<^verbatim>\<open>xs.find(p)\<close> hands out a reference to the first element that satisfies \<open>p\<close>, and
  the controllers then assign to a field of it: \<open>updateFirst p f\<close> is that in-place
  update of the first match.
\<close>

fun updateFirst :: "('a \<Rightarrow> bool) \<Rightarrow> ('a \<Rightarrow> 'a) \<Rightarrow> 'a list \<Rightarrow> 'a list" where
  "updateFirst p f [] = []"
| "updateFirst p f (x # xs) = (if p x then f x # xs else x # updateFirst p f xs)"

section \<open>createBooking\<close>

text \<open>The two \<^verbatim>\<open>find\<close> calls of the availability matcher.\<close>

definition availabilityForDate :: "restaurant \<Rightarrow> instant \<Rightarrow> dateAvailability option" where
  "availabilityForDate r d = List.find (\<lambda>entry. utcDay (date entry) = utcDay d) (availableTables r)"

definition eligible :: "int \<Rightarrow> string \<Rightarrow> tableDefinition \<Rightarrow> bool" where
  "eligible n t table = (n \<le> tableSize table \<and> t \<in> set (availableTimes table))"

definition suitableTable :: "dateAvailability \<Rightarrow> int \<Rightarrow> string \<Rightarrow> tableDefinition option" where
  "suitableTable entry n t = List.find (eligible n t) (tables entry)"

text \<open>
  \<^verbatim>\<open>suitableTable.availableTimes = suitableTable.availableTimes.filter(t => t !== time)\<close>
  on the matched table of the matched entry, followed by the save of the restaurant.
\<close>

definition consumeSlot :: "restaurant \<Rightarrow> instant \<Rightarrow> int \<Rightarrow> string \<Rightarrow> restaurant" where
  "consumeSlot r d n t =
     r\<lparr>availableTables :=
         updateFirst (\<lambda>entry. utcDay (date entry) = utcDay d)
           (\<lambda>entry. entry\<lparr>tables :=
              updateFirst (eligible n t)
                (\<lambda>table. table\<lparr>availableTimes := filter (\<lambda>x. x \<noteq> t) (availableTimes table)\<rparr>)
                (tables entry)\<rparr>)
           (availableTables r)\<rparr>"

definition createBooking :: "state \<Rightarrow> user \<Rightarrow> bookingRequest \<Rightarrow> (error + booking) \<times> state" where
  "createBooking s u req =
     (case (reqRestaurantId req, reqDate req) of
        (Some rid, Some d) \<Rightarrow>
          if reqTime req = [] \<or> \<not> truthy (reqPartySize req) then (Inl MissingFields, s)
          else (case parseInt (reqPartySize req) of
             None \<Rightarrow> (Inl InvalidPartySize, s)
           | Some n \<Rightarrow>
               if n \<le> 0 then (Inl InvalidPartySize, s)
               else (case restaurants s rid of
                  None \<Rightarrow> (Inl RestaurantNotFound, s)
                | Some r \<Rightarrow>
                    (case availabilityForDate r d of
                       None \<Rightarrow> (Inl NoAvailabilityForDate, s)
                     | Some entry \<Rightarrow>
                         (case suitableTable entry n (reqTime req) of
                            None \<Rightarrow> (Inl NoSuitableTable, s)
                          | Some table \<Rightarrow>
                              let b = \<lparr>userId = uid u, restaurantId = rid,
                                       bookingDate = startOfUtcDay d, time = reqTime req,
                                       partySize = n, bookedTableSize = tableSize table,
                                       bookedTableDefinitionId = Some (tableId table),
                                       status = ''confirmed''\<rparr>;
                                  r1 = consumeSlot r d n (reqTime req);
                                  r2 = r1\<lparr>timesBookedToday := timesBookedToday r1 + 1\<rparr>
                              in (Inr b, \<lparr>restaurants = (restaurants s)(rid \<mapsto> r2),
                                          bookings = bookings s @ [b]\<rparr>)))))
      | _ \<Rightarrow> (Inl MissingFields, s))"

section \<open>cancelBooking, first version\<close>

text \<open>
  \<^verbatim>\<open>table.availableTimes.push(booking.time)\<close> on the table found by id in the entry
  found by date.  The dates are printed by \<^verbatim>\<open>moment(d).format('YYYY-MM-DD')\<close>, without
  \<^verbatim>\<open>.utc()\<close>: the calendar day of the server's zone.
\<close>

definition releaseSlot :: "int \<Rightarrow> restaurant \<Rightarrow> instant \<Rightarrow> oid \<Rightarrow> string \<Rightarrow> restaurant" where
  "releaseSlot tz r d tid t =
     r\<lparr>availableTables :=
         updateFirst (\<lambda>entry. localDay tz (date entry) = localDay tz d)
           (\<lambda>entry. entry\<lparr>tables :=
              updateFirst (\<lambda>table. tableId table = tid)
                (\<lambda>table. table\<lparr>availableTimes := availableTimes table @ [t]\<rparr>)
                (tables entry)\<rparr>)
           (availableTables r)\<rparr>"

text \<open>
  \<open>tz\<close> is the offset of the server's zone in minutes.  The booking is saved as cancelled
  before the inventory is touched.  \<^verbatim>\<open>booking.bookedTableDefinitionId.toString()\<close> is
  evaluated inside the callback of \<^verbatim>\<open>tables.find\<close>: on a booking without the field it
  throws at the first table, which the handler answers with a 500.
\<close>

definition cancelBooking :: "int \<Rightarrow> state \<Rightarrow> user \<Rightarrow> oid \<Rightarrow> (error + booking) \<times> state" where
  "cancelBooking tz s u bid =
     (if length (bookings s) \<le> bid then (Inl BookingNotFound, s)
      else let b = bookings s ! bid in
        if userId b \<noteq> uid u \<and> role u \<noteq> ''admin'' then (Inl NotAuthorized, s)
        else if status b = ''cancelled'' then (Inl AlreadyCancelled, s)
        else
          let b1 = b\<lparr>status := ''cancelled''\<rparr>;
              s1 = s\<lparr>bookings := (bookings s)[bid := b1]\<rparr>
          in (case restaurants s1 (restaurantId b1) of
                None \<Rightarrow> (Inr b1, s1)
              | Some r \<Rightarrow>
                  (case List.find (\<lambda>entry. localDay tz (date entry) = localDay tz (bookingDate b1))
                          (availableTables r) of
                     None \<Rightarrow> (Inr b1, s1)
                   | Some entry \<Rightarrow>
                       (case bookedTableDefinitionId b1 of
                          None \<Rightarrow> if tables entry = [] then (Inr b1, s1) else (Inl ServerError, s1)
                        | Some tid \<Rightarrow>
                            (case List.find (\<lambda>table. tableId table = tid) (tables entry) of
                               None \<Rightarrow> (Inr b1, s1)
                             | Some table \<Rightarrow>
                                 (Inr b1,
                                  s1\<lparr>restaurants := (restaurants s1)(restaurantId b1 \<mapsto>
                                        releaseSlot tz r (bookingDate b1) tid (time b1))\<rparr>))))))"

section \<open>cancelBooking, second version\<close>

text \<open>
  \<^verbatim>\<open>moment(a, 'HH:mm').diff(moment(b, 'HH:mm'))\<close>.  The parser of the moment library
  is a parameter \<open>p\<close>: the minutes after midnight of a time string, \<open>None\<close> when the
  moment is invalid.  A difference with an invalid moment is \<^verbatim>\<open>NaN\<close>, which
  \<^verbatim>\<open>sort\<close> reads as 0.
\<close>

definition timeDiff :: "(string \<Rightarrow> nat option) \<Rightarrow> string \<Rightarrow> string \<Rightarrow> int" where
  "timeDiff p a b = (case (p a, p b) of (Some x, Some y) \<Rightarrow> int x - int y | _ \<Rightarrow> 0)"

text \<open>
  \<^verbatim>\<open>Array.prototype.sort\<close> with a comparator is a stable sort: insertion from the
  right, each element placed before the first one it does not exceed.
\<close>

fun insertBy :: "('a \<Rightarrow> 'a \<Rightarrow> int) \<Rightarrow> 'a \<Rightarrow> 'a list \<Rightarrow> 'a list" where
  "insertBy c a [] = [a]"
| "insertBy c a (b # bs) = (if c a b \<le> 0 then a # b # bs else b # insertBy c a bs)"

definition sortBy :: "('a \<Rightarrow> 'a \<Rightarrow> int) \<Rightarrow> 'a list \<Rightarrow> 'a list" where
  "sortBy c xs = foldr (insertBy c) xs []"

text \<open>
  The table a cancelled booking gives its slot back to: by id, or for old bookings by
  size among the tables that lack the time.  The entry is looked up by UTC day, the table
  in it by this predicate, and the slot is pushed and the list sorted unless the table
  has the time already; where a lookup finds nothing the inventory stays as it is.
\<close>

definition specificTableDefinition :: "booking \<Rightarrow> tableDefinition \<Rightarrow> bool" where
  "specificTableDefinition b table =
     (case bookedTableDefinitionId b of
        Some tid \<Rightarrow> tableId table = tid
      | None \<Rightarrow> tableSize table = bookedTableSize b \<and> time b \<notin> set (availableTimes table))"

definition releaseSlotV2 :: "(string \<Rightarrow> nat option) \<Rightarrow> restaurant \<Rightarrow> booking \<Rightarrow> restaurant" where
  "releaseSlotV2 p r b =
     r\<lparr>availableTables :=
         updateFirst (\<lambda>entry. utcDay (date entry) = utcDay (bookingDate b))
           (\<lambda>entry. entry\<lparr>tables :=
              updateFirst (specificTableDefinition b)
                (\<lambda>table.
                   if time b \<in> set (availableTimes table) then table
                   else table\<lparr>availableTimes := sortBy (timeDiff p) (availableTimes table @ [time b])\<rparr>)
                (tables entry)\<rparr>)
           (availableTables r)\<rparr>"

definition cancelBookingV2 ::
  "(string \<Rightarrow> nat option) \<Rightarrow> state \<Rightarrow> user \<Rightarrow> oid \<Rightarrow> (error + booking) \<times> state" where
  "cancelBookingV2 p s u bid =
     (if \<not> (bid < length (bookings s) \<and> userId (bookings s ! bid) = uid u
             \<and> status (bookings s ! bid) \<noteq> ''cancelled'')
      then (Inl BookingNotFoundOrAlreadyCancelled, s)
      else
        let b1 = (bookings s ! bid)\<lparr>status := ''cancelled''\<rparr>;
            s1 = s\<lparr>bookings := (bookings s)[bid := b1]\<rparr>
        in (case restaurants s1 (restaurantId b1) of
              None \<Rightarrow> (Inr b1, s1)
            | Some r \<Rightarrow>
                (Inr b1, s1\<lparr>restaurants := (restaurants s1)(restaurantId b1 \<mapsto> releaseSlotV2 p r b1)\<rparr>)))"

section \<open>searchRestaurants\<close>

text \<open>
  The query string of a search; an absent parameter is the empty string (both are falsy).
\<close>

record searchQuery =
  location :: string
  qDate :: string
  qTime :: string
  qPartySize :: string

text \<open>\<^verbatim>\<open>date.split('-')\<close>\<close>

fun splitOn :: "char \<Rightarrow> string \<Rightarrow> string list" where
  "splitOn c [] = [[]]"
| "splitOn c (x # xs) =
     (if x = c then [] # splitOn c xs
      else (case splitOn c xs of [] \<Rightarrow> [[x]] | w # ws \<Rightarrow> (x # w) # ws))"

text \<open>An element of the destructured array, parsed; a missing element is \<^verbatim>\<open>undefined\<close>.\<close>

definition parseIntAt :: "string list \<Rightarrow> nat \<Rightarrow> int option" where
  "parseIntAt parts i = (if i < length parts then parseIntStr (parts ! i) else None)"

text \<open>
  \<^verbatim>\<open>Date.UTC(year, monthIndex, day)\<close>: years 0 to 99 are years of the 20th century, a
  month index outside 0..11 carries into the year, the day counts on from the first of
  the month, and a time value beyond the range of \<^verbatim>\<open>Date\<close> is invalid.
  \<open>daysFromCivil y m\<close> is the day number of the first of month \<open>m\<close> (1..12) of year \<open>y\<close>.
\<close>

definition daysFromCivil :: "int \<Rightarrow> int \<Rightarrow> int" where
  "daysFromCivil y m =
     (let y1 = (if m \<le> 2 then y - 1 else y);
          era = y1 div 400;
          yoe = y1 mod 400;
          mp = (m + 9) mod 12;
          doy = (153 * mp + 2) div 5;
          doe = yoe * 365 + yoe div 4 - yoe div 100 + doy
      in era * 146097 + doe - 719468)"

definition dateUTC :: "int \<Rightarrow> int \<Rightarrow> int \<Rightarrow> instant option" where
  "dateUTC year month day =
     (let yr = (if 0 \<le> year \<and> year \<le> 99 then 1900 + year else year);
          ym = yr + month div 12;
          mn = month mod 12;
          t = (daysFromCivil ym (mn + 1) + day - 1) * msPerDay
      in if \<bar>t\<bar> \<le> 8640000000000000 then Some t else None)"

definition searchDate :: "string \<Rightarrow> instant option" where
  "searchDate d =
     (let parts = splitOn CHR ''-'' d in
      case (parseIntAt parts 0, parseIntAt parts 1, parseIntAt parts 2) of
        (Some y, Some m, Some dd) \<Rightarrow> dateUTC y (m - 1) dd
      | _ \<Rightarrow> None)"

text \<open>\<^verbatim>\<open>format('HH:mm')\<close> of a time of day given in minutes after midnight.\<close>

definition digitChar :: "int \<Rightarrow> char" where
  "digitChar n = ''0123456789'' ! nat n"

definition formatHHmm :: "int \<Rightarrow> string" where
  "formatHHmm m =
     [digitChar (m div 60 div 10), digitChar (m div 60 mod 10), CHR '':'',
      digitChar (m mod 60 div 10), digitChar (m mod 60 mod 10)]"

text \<open>
  The bounds of the window: the moment of the requested time, 30 minutes subtracted and
  added, printed as a time of day again (so the bounds wrap at midnight).
\<close>

definition startTimeStr :: "nat \<Rightarrow> string" where
  "startTimeStr m = formatHHmm ((int m - 30) mod 1440)"

definition endTimeStr :: "nat \<Rightarrow> string" where
  "endTimeStr m = formatHHmm ((int m + 30) mod 1440)"

text \<open>\<^verbatim>\<open>$gte\<close> and \<^verbatim>\<open>$lte\<close> on strings: the order of the bytes, a prefix first.\<close>

fun strLe :: "string \<Rightarrow> string \<Rightarrow> bool" where
  "strLe [] ys = True"
| "strLe (x # xs) [] = False"
| "strLe (x # xs) (y # ys) =
     ((of_char x :: nat) < of_char y \<or> (x = y \<and> strLe xs ys))"

definition slotInWindow :: "string \<Rightarrow> string \<Rightarrow> string \<Rightarrow> bool" where
  "slotInWindow lo hi slot = (strLe lo slot \<and> strLe slot hi)"

text \<open>
  \<open>initialQuery\<close>: approved restaurants, and with a location those whose city matches it
  as a case-insensitive regular expression or whose zip code equals it.  The regular
  expression engine is the parameter \<open>rx\<close>; it stands for the locations that are
  patterns (on any other \<^verbatim>\<open>new RegExp\<close> throws, which the handler answers with 500).
\<close>

definition initialQuery :: "(string \<Rightarrow> string \<Rightarrow> bool) \<Rightarrow> string \<Rightarrow> restaurant \<Rightarrow> bool" where
  "initialQuery rx loc r =
     (isApproved r \<and> (loc = [] \<or> rx loc (addressCity r) \<or> addressZip r = loc))"

text \<open>
  The party size of a search: \<open>Some n\<close> when \<^verbatim>\<open>filterByPartySize\<close> is set, with \<open>n\<close> the
  \<^verbatim>\<open>numericPartySize\<close>.
\<close>

definition sizeFilter :: "string \<Rightarrow> int option" where
  "sizeFilter ps =
     (if ps = [] then None
      else (case parseIntStr ps of None \<Rightarrow> None | Some n \<Rightarrow> if 0 < n then Some n else None))"

text \<open>The \<^verbatim>\<open>cond\<close> of the \<^verbatim>\<open>matchingTables\<close> stage.\<close>

definition matchingTable :: "int option \<Rightarrow> string \<Rightarrow> string \<Rightarrow> tableDefinition \<Rightarrow> bool" where
  "matchingTable sz lo hi table =
     ((case sz of None \<Rightarrow> True | Some n \<Rightarrow> n \<le> tableSize table)
      \<and> 0 < length (filter (slotInWindow lo hi) (availableTimes table)))"

text \<open>
  The stages of the pipeline behind \<open>initialQuery\<close>: the entries whose stored date equals
  the search date, the first of them, its matching tables, not empty.
\<close>

definition pipelineMatch :: "instant \<Rightarrow> int option \<Rightarrow> string \<Rightarrow> string \<Rightarrow> restaurant \<Rightarrow> bool" where
  "pipelineMatch sd sz lo hi r =
     (case filter (\<lambda>at. date at = sd) (availableTables r) of
        [] \<Rightarrow> False
      | dateEntry # _ \<Rightarrow> filter (matchingTable sz lo hi) (tables dateEntry) \<noteq> [])"

text \<open>
  \<open>p\<close> is the parser of \<^verbatim>\<open>moment(time, 'HH:mm')\<close> as in \<open>timeDiff\<close>, \<open>rs\<close> the restaurant
  collection in its natural order.  The result is the list of restaurants sent back; the
  review and manager annotations added to each are left out.

  With a date and a time, the time is checked first: an invalid moment is answered with
  400, \<open>InvalidTimeFormat\<close>.  Then the handler logs \<^verbatim>\<open>searchDate.toISOString()\<close>, which
  throws a \<^verbatim>\<open>RangeError\<close> on an invalid date; the \<^verbatim>\<open>catch\<close> of the handler answers it
  with 500, \<open>ServerError\<close>.  Only a valid search date reaches the pipeline.
\<close>

definition searchRestaurants ::
  "(string \<Rightarrow> string \<Rightarrow> bool) \<Rightarrow> (string \<Rightarrow> nat option) \<Rightarrow> restaurant list \<Rightarrow> searchQuery
     \<Rightarrow> error + restaurant list" where
  "searchRestaurants rx p rs q =
     (if qDate q \<noteq> [] \<and> qTime q \<noteq> [] then
        (case p (qTime q) of
           None \<Rightarrow> Inl InvalidTimeFormat
         | Some m \<Rightarrow>
             (case searchDate (qDate q) of
                None \<Rightarrow> Inl ServerError
              | Some sd \<Rightarrow>
                  Inr (filter (pipelineMatch sd (sizeFilter (qPartySize q))
                                 (startTimeStr m) (endTimeStr m))
                         (filter (initialQuery rx (location q)) rs))))
      else Inr (filter (initialQuery rx (location q)) rs))"

text \<open>
  \<^verbatim>\<open>moment(time, 'HH:mm')\<close>, called without the strict flag, as the library parses it.
  The tokens \<^verbatim>\<open>HH\<close>, \<^verbatim>\<open>:\<close> and \<^verbatim>\<open>mm\<close> of the format are matched one after the other,
  each at its first match anywhere in what is left of the input, and what lies before
  the match is skipped; a token without a match leaves the input as it is.  \<^verbatim>\<open>HH\<close> and
  \<^verbatim>\<open>mm\<close> match one digit, or two when a second follows (\<open>match1to2\<close>), the colon matches a colon
  (\<open>skipColon\<close>).  So \<^verbatim>\<open>'6pm'\<close> is 06:00, \<^verbatim>\<open>'9:00'\<close> is 09:00 and \<^verbatim>\<open>'1830'\<close> is 18:30.

  The moment is invalid when neither \<^verbatim>\<open>HH\<close> nor \<^verbatim>\<open>mm\<close> has matched (the input holds no
  digit), or when a field overflows: an hour above 24, the hour 24 with a minute other
  than 0, a minute above 59.  A field that has not matched is 0, and 24:00 is 00:00 of
  the next day.  The value is the time of day of the moment in minutes after midnight,
  in the zone of the server; the date of the moment is the current one, and a change of
  the clock (daylight saving) within 30 minutes of the time is not modelled.
\<close>

definition match1to2 :: "string \<Rightarrow> (int \<times> string) option" where
  "match1to2 s =
     (case dropWhile (\<lambda>c. \<not> isDigit c) s of
        [] \<Rightarrow> None
      | [a] \<Rightarrow> Some (digitVal a, [])
      | a # b # r \<Rightarrow> if isDigit b then Some (digitsVal [a, b], r) else Some (digitVal a, b # r))"

definition skipColon :: "string \<Rightarrow> string" where
  "skipColon s = (if CHR '':'' \<in> set s then tl (dropWhile (\<lambda>c. c \<noteq> CHR '':'') s) else s)"

definition parseHHmm :: "string \<Rightarrow> nat option" where
  "parseHHmm s =
     (let hh = match1to2 s;
          rest = skipColon (case hh of None \<Rightarrow> s | Some (_, r) \<Rightarrow> r);
          mm = match1to2 rest;
          h = (case hh of None \<Rightarrow> 0 | Some (v, _) \<Rightarrow> v);
          m = (case mm of None \<Rightarrow> 0 | Some (v, _) \<Rightarrow> v)
      in if hh = None \<and> mm = None then None
         else if 24 < h \<or> (h = 24 \<and> 0 < m) \<or> 59 < m then None
         else Some (nat ((h * 60 + m) mod 1440)))"

section \<open>Slots and confirmed bookings\<close>


text \<open>The restaurant offers time \<open>t\<close> on the table \<open>tid\<close> of the entry dated \<open>d\<close>.\<close>

definition hasSlot :: "restaurant \<Rightarrow> instant \<Rightarrow> oid \<Rightarrow> string \<Rightarrow> bool" where
  "hasSlot r d tid t =
     (\<exists>e \<in> set (availableTables r). date e = d
        \<and> (\<exists>tb \<in> set (tables e). tableId tb = tid \<and> t \<in> set (availableTimes tb)))"


text \<open>
  The invariants of the data model on the inventory as the managers seed it: the dates of
  the entries are UTC midnights, one entry per date, and the table definitions of an
  entry have different ids.  A seeded state has no bookings yet.
\<close>

definition wfRestaurant :: "restaurant \<Rightarrow> bool" where
  "wfRestaurant r =
     (distinct (map date (availableTables r))
      \<and> (\<forall>e \<in> set (availableTables r).
            date e mod msPerDay = 0 \<and> distinct (map tableId (tables e))))"



text \<open>
  The dates and table ids of an inventory, and the update of the table \<open>tid\<close> of the entry
  dated \<open>d\<close>: what the in-place updates of the controllers amount to on a well-formed
  inventory.
\<close>

definition skeleton :: "restaurant \<Rightarrow> (instant \<times> oid list) list" where
  "skeleton r = map (\<lambda>e. (date e, map tableId (tables e))) (availableTables r)"

definition mapSlot ::
  "instant \<Rightarrow> oid \<Rightarrow> (tableDefinition \<Rightarrow> tableDefinition) \<Rightarrow> restaurant \<Rightarrow> restaurant" where
  "mapSlot d tid g r =
     r\<lparr>availableTables :=
         map (\<lambda>e. if date e = d
                  then e\<lparr>tables := map (\<lambda>tb. if tableId tb = tid then g tb else tb) (tables e)\<rparr>
                  else e)
           (availableTables r)\<rparr>"






text \<open>
  The invariant of the data model on the slots of a table under the time parser \<open>p\<close>:
  every slot is a valid time, and the slots are in chronological order without
  duplicates.
\<close>

definition chronological :: "(string \<Rightarrow> nat option) \<Rightarrow> string list \<Rightarrow> bool" where
  "chronological p xs =
     ((\<forall>x \<in> set xs. p x \<noteq> None)
      \<and> sorted (map (\<lambda>x. the (p x)) xs) \<and> distinct (map (\<lambda>x. the (p x)) xs))"

text \<open>
  Every slot of the restaurant is a time of day in the format \<^verbatim>\<open>HH:mm\<close>, the format in
  which the window of the search is printed.
\<close>

definition slotsInFormat :: "restaurant \<Rightarrow> bool" where
  "slotsInFormat r =
     (\<forall>e \<in> set (availableTables r). \<forall>t \<in> set (tables e). \<forall>sl \<in> set (availableTimes t).
        \<exists>k < 1440. sl = formatHHmm (int k))"

section \<open>A concrete inventory\<close>

text \<open>
  Restaurant 7 has, on 2024-06-01 (UTC midnight is 1717200000000), one table of size 4
  with the slots 18:00 and 18:30.
\<close>

definition day0601 :: instant where
  "day0601 = 1717200000000"

definition table4 :: tableDefinition where
  "table4 = \<lparr>tableId = 1, tableSize = 4, availableTimes = [''18:00'', ''18:30'']\<rparr>"

definition restaurantX :: restaurant where
  "restaurantX = \<lparr>isApproved = True, addressCity = ''Springfield'', addressZip = ''12345'',
                   availableTables = [\<lparr>date = day0601, tables = [table4]\<rparr>],
                   timesBookedToday = 0\<rparr>"

definition stateX :: state where
  "stateX = \<lparr>restaurants = [7 \<mapsto> restaurantX], bookings = []\<rparr>"

definition requestX :: "jsval \<Rightarrow> string \<Rightarrow> bookingRequest" where
  "requestX n t = \<lparr>reqRestaurantId = Some 7, reqDate = Some day0601, reqTime = t, reqPartySize = n\<rparr>"

definition diner :: user where
  "diner = \<lparr>uid = 100, role = ''customer''\<rparr>"

definition admin :: user where
  "admin = \<lparr>uid = 1, role = ''admin''\<rparr>"

text \<open>The same restaurant with the date of the entry stored as noon UTC of that day.\<close>

definition restaurantNoon :: restaurant where
  "restaurantNoon = restaurantX\<lparr>availableTables := [\<lparr>date = day0601 + 43200000, tables = [table4]\<rparr>]\<rparr>"

definition stateNoon :: state where
  "stateNoon = \<lparr>restaurants = [7 \<mapsto> restaurantNoon], bookings = []\<rparr>"

text \<open>A restaurant with one table of size 4 on 2024-06-01 that is offered late, at 23:30 and 23:45.\<close>

definition restaurantLate :: restaurant where
  "restaurantLate =
     restaurantX\<lparr>availableTables :=
       [\<lparr>date = day0601,
         tables = [\<lparr>tableId = 1, tableSize = 4, availableTimes = [''23:30'', ''23:45'']\<rparr>]\<rparr>]\<rparr>"

definition queryX :: "string \<Rightarrow> string \<Rightarrow> string \<Rightarrow> searchQuery" where
  "queryX d t n = \<lparr>location = [], qDate = d, qTime = t, qPartySize = n\<rparr>"

text \<open>The slots of the tables of restaurant 7, entry by entry.\<close>

definition slotsOf :: "state \<Rightarrow> string list list list" where
  "slotsOf s = (case restaurants s 7 of None \<Rightarrow> []
                | Some r \<Rightarrow> map (\<lambda>e. map availableTimes (tables e)) (availableTables r))"

text \<open>The states after the diner has booked the table at 18:00.\<close>

definition stateBooked :: state where
  "stateBooked = snd (createBooking stateX diner (requestX (JNum 4) ''18:00''))"

definition stateNoonBooked :: state where
  "stateNoonBooked = snd (createBooking stateNoon diner (requestX (JNum 4) ''18:00''))"

definition bookingX :: booking where
  "bookingX = \<lparr>userId = 100, restaurantId = 7, bookingDate = day0601, time = ''18:00'',
                partySize = 4, bookedTableSize = 4, bookedTableDefinitionId = Some 1,
                status = ''confirmed''\<rparr>"

section \<open>Evaluation of the concrete inventory\<close>

text \<open>
  The parser on some inputs: the wire format, inputs outside it that the library
  accepts all the same, the end of the day, and inputs that give no valid moment.
\<close>

lemma parseHHmm_examples:
  "parseHHmm ''18:00'' = Some 1080 \<and> parseHHmm ''18:15'' = Some 1095
   \<and> parseHHmm ''18:30'' = Some 1110 \<and> parseHHmm ''19:01'' = Some 1141
   \<and> parseHHmm ''23:20'' = Some 1400 \<and> parseHHmm ''23:45'' = Some 1425
   \<and> parseHHmm ''6pm'' = Some 360 \<and> parseHHmm ''9:00'' = Some 540 \<and> parseHHmm ''1830'' = Some 1110
   \<and> parseHHmm ''24:00'' = Some 0
   \<and> parseHHmm ''24:01'' = None \<and> parseHHmm ''25:00'' = None \<and> parseHHmm ''18:60'' = None
   \<and> parseHHmm ''soon'' = None"
  by (simp add: parseHHmm_def match1to2_def skipColon_def isDigit_def digitsVal_def digitVal_def)

lemmas eval_defs =
  parseInt_def parseIntStr_def isSpace_def isDigit_def digitsVal_def digitVal_def truthy_def
  utcDay_def localDay_def msPerDay_def startOfUtcDay_def availabilityForDate_def
  suitableTable_def eligible_def consumeSlot_def releaseSlot_def releaseSlotV2_def
  specificTableDefinition_def sortBy_def timeDiff_def parseHHmm_examples
  day0601_def table4_def restaurantX_def stateX_def requestX_def diner_def admin_def
  restaurantNoon_def stateNoon_def restaurantLate_def queryX_def slotsOf_def

lemmas search_defs =
  searchRestaurants_def initialQuery_def pipelineMatch_def searchDate_def parseIntAt_def
  dateUTC_def daysFromCivil_def matchingTable_def sizeFilter_def slotInWindow_def
  startTimeStr_def endTimeStr_def formatHHmm_def digitChar_def

section \<open>The availability matcher\<close>

text \<open>
  C6.  On a request that passes validation for an existing restaurant: when no entry of
  the restaurant lies on the requested UTC day the booking fails with
  \<open>NoAvailabilityForDate\<close>; otherwise, in the first entry of that day, when no table has
  \<open>tableSize \<ge> partySize\<close> and the requested time among its \<open>availableTimes\<close> (the very
  string) it fails with \<open>NoSuitableTable\<close>, and else the booking is confirmed on the
  first such table in the order of the list.  The failures leave the state as it was.
\<close>

theorem matcher_first_fit:
  assumes req: "reqRestaurantId req = Some rid" "reqDate req = Some d" "reqTime req \<noteq> []"
      "truthy (reqPartySize req)" "parseInt (reqPartySize req) = Some n" "0 < n"
    and r: "restaurants s rid = Some r"
  shows "((\<forall>e \<in> set (availableTables r). utcDay (date e) \<noteq> utcDay d) \<longrightarrow>
            createBooking s u req = (Inl NoAvailabilityForDate, s))
       \<and> (\<forall>i < length (availableTables r).
            utcDay (date (availableTables r ! i)) = utcDay d
            \<and> (\<forall>j < i. utcDay (date (availableTables r ! j)) \<noteq> utcDay d) \<longrightarrow>
            (let ts = tables (availableTables r ! i) in
              ((\<forall>t \<in> set ts. \<not> (n \<le> tableSize t \<and> reqTime req \<in> set (availableTimes t))) \<longrightarrow>
                 createBooking s u req = (Inl NoSuitableTable, s))
            \<and> (\<forall>k < length ts.
                 n \<le> tableSize (ts ! k) \<and> reqTime req \<in> set (availableTimes (ts ! k))
                 \<and> (\<forall>j < k. \<not> (n \<le> tableSize (ts ! j) \<and> reqTime req \<in> set (availableTimes (ts ! j)))) \<longrightarrow>
                 (\<exists>b. fst (createBooking s u req) = Inr b
                     \<and> bookedTableDefinitionId b = Some (tableId (ts ! k))
                     \<and> bookedTableSize b = tableSize (ts ! k)
                     \<and> status b = ''confirmed'' \<and> time b = reqTime req))))"
proof (intro conjI allI impI)
  assume "\<forall>e \<in> set (availableTables r). utcDay (date e) \<noteq> utcDay d"
  then have "availabilityForDate r d = None"
    by (simp add: availabilityForDate_def find_None_iff)
  then show "createBooking s u req = (Inl NoAvailabilityForDate, s)"
    using req r by (simp add: createBooking_def)
next
  fix i
  assume i: "i < length (availableTables r)"
    and h: "utcDay (date (availableTables r ! i)) = utcDay d
            \<and> (\<forall>j < i. utcDay (date (availableTables r ! j)) \<noteq> utcDay d)"
  have e: "availabilityForDate r d = Some (availableTables r ! i)"
    unfolding availabilityForDate_def find_Some_iff using i h by blast
  show "let ts = tables (availableTables r ! i) in
              ((\<forall>t \<in> set ts. \<not> (n \<le> tableSize t \<and> reqTime req \<in> set (availableTimes t))) \<longrightarrow>
                 createBooking s u req = (Inl NoSuitableTable, s))
            \<and> (\<forall>k < length ts.
                 n \<le> tableSize (ts ! k) \<and> reqTime req \<in> set (availableTimes (ts ! k))
                 \<and> (\<forall>j < k. \<not> (n \<le> tableSize (ts ! j) \<and> reqTime req \<in> set (availableTimes (ts ! j)))) \<longrightarrow>
                 (\<exists>b. fst (createBooking s u req) = Inr b
                     \<and> bookedTableDefinitionId b = Some (tableId (ts ! k))
                     \<and> bookedTableSize b = tableSize (ts ! k)
                     \<and> status b = ''confirmed'' \<and> time b = reqTime req))"
    unfolding Let_def
  proof (intro conjI allI impI)
    assume "\<forall>t \<in> set (tables (availableTables r ! i)).
              \<not> (n \<le> tableSize t \<and> reqTime req \<in> set (availableTimes t))"
    then have "suitableTable (availableTables r ! i) n (reqTime req) = None"
      by (simp add: suitableTable_def find_None_iff eligible_def)
    then show "createBooking s u req = (Inl NoSuitableTable, s)"
      using req r e by (simp add: createBooking_def)
  next
    fix k
    assume k: "k < length (tables (availableTables r ! i))"
      and hk: "n \<le> tableSize (tables (availableTables r ! i) ! k)
               \<and> reqTime req \<in> set (availableTimes (tables (availableTables r ! i) ! k))
               \<and> (\<forall>j < k. \<not> (n \<le> tableSize (tables (availableTables r ! i) ! j)
                     \<and> reqTime req \<in> set (availableTimes (tables (availableTables r ! i) ! j))))"
    have "suitableTable (availableTables r ! i) n (reqTime req)
            = Some (tables (availableTables r ! i) ! k)"
      unfolding suitableTable_def find_Some_iff eligible_def using k hk by blast
    then show "\<exists>b. fst (createBooking s u req) = Inr b
                     \<and> bookedTableDefinitionId b = Some (tableId (tables (availableTables r ! i) ! k))
                     \<and> bookedTableSize b = tableSize (tables (availableTables r ! i) ! k)
                     \<and> status b = ''confirmed'' \<and> time b = reqTime req"
      using req r e by (simp add: createBooking_def Let_def)
  qed
qed

theorem matcher_first_fit_witness:
  "restaurants stateX 7 = Some restaurantX
   \<and> parseInt (JNum 4) = Some 4
   \<and> (\<exists>b. fst (createBooking stateX diner (requestX (JNum 4) ''18:00'')) = Inr b
         \<and> bookedTableDefinitionId b = Some 1 \<and> bookedTableSize b = 4
         \<and> status b = ''confirmed'' \<and> time b = ''18:00'')
   \<and> createBooking stateX diner (requestX (JNum 5) ''18:00'') = (Inl NoSuitableTable, stateX)
   \<and> createBooking stateX diner (requestX (JStr ''2'') ''18:00''\<lparr>reqDate := Some 0\<rparr>)
       = (Inl NoAvailabilityForDate, stateX)"
proof -
  have r: "restaurants stateX 7 = Some restaurantX"
    by (simp add: stateX_def)
  have ok: "\<exists>b. fst (createBooking stateX diner (requestX (JNum 4) ''18:00'')) = Inr b
         \<and> bookedTableDefinitionId b = Some 1 \<and> bookedTableSize b = 4
         \<and> status b = ''confirmed'' \<and> time b = ''18:00''"
    using matcher_first_fit [of "requestX (JNum 4) ''18:00''" 7 day0601 4 stateX restaurantX diner] r
    by (simp add: eval_defs Let_def)
  have none: "createBooking stateX diner (requestX (JNum 5) ''18:00'') = (Inl NoSuitableTable, stateX)"
    using matcher_first_fit [of "requestX (JNum 5) ''18:00''" 7 day0601 5 stateX restaurantX diner] r
    by (simp add: eval_defs Let_def)
  have nodate: "createBooking stateX diner (requestX (JStr ''2'') ''18:00''\<lparr>reqDate := Some 0\<rparr>)
       = (Inl NoAvailabilityForDate, stateX)"
    using matcher_first_fit [of "requestX (JStr ''2'') ''18:00''\<lparr>reqDate := Some 0\<rparr>" 7 0 2
             stateX restaurantX diner] r
    by (simp add: eval_defs Let_def)
  show ?thesis
    using r ok none nodate by (simp add: parseInt_def)
qed

lemma stateBooked_eq:
  "stateBooked = \<lparr>restaurants = [7 \<mapsto> restaurantX\<lparr>availableTables := [\<lparr>date = day0601,
        tables = [table4\<lparr>availableTimes := [''18:30'']\<rparr>]\<rparr>], timesBookedToday := 1\<rparr>],
      bookings = [bookingX]\<rparr>"
  by (simp add: stateBooked_def createBooking_def bookingX_def eval_defs Let_def)

lemma stateNoonBooked_eq:
  "stateNoonBooked = \<lparr>restaurants = [7 \<mapsto> restaurantX\<lparr>availableTables := [\<lparr>date = day0601 + 43200000,
        tables = [table4\<lparr>availableTimes := [''18:30'']\<rparr>]\<rparr>], timesBookedToday := 1\<rparr>],
      bookings = [bookingX]\<rparr>"
  by (simp add: stateNoonBooked_def createBooking_def bookingX_def eval_defs Let_def)

section \<open>Validation of the party size\<close>

text \<open>
  C7.  A request that carries every field and the number 0 as party size is answered with
  \<open>MissingFields\<close>, not with \<open>InvalidPartySize\<close>: the presence check \<^verbatim>\<open>!partySize\<close> is
  true of the number 0 and returns before \<^verbatim>\<open>numericPartySize <= 0\<close> is reached.  The
  string \<^verbatim>\<open>"0"\<close> and negative numbers do reach that check.
\<close>

theorem zero_party_size_reported_missing:
  "createBooking stateX diner (requestX (JNum 0) ''18:00'') = (Inl MissingFields, stateX)
   \<and> createBooking stateX diner (requestX (JStr ''0'') ''18:00'') = (Inl InvalidPartySize, stateX)
   \<and> createBooking stateX diner (requestX (JNum (- 2)) ''18:00'') = (Inl InvalidPartySize, stateX)"
  by (simp add: createBooking_def requestX_def truthy_def parseInt_def parseIntStr_def
        isSpace_def isDigit_def digitsVal_def digitVal_def)

text \<open>
  What the code does as the claim has it: a party size that gets past the presence check
  and parses to zero or less is rejected as invalid, and a table is eligible for a party
  of its own size and not for one more.
\<close>

lemma nonpositive_party_size_rejected:
  assumes "reqRestaurantId req = Some rid" "reqDate req = Some d" "reqTime req \<noteq> []"
    "truthy (reqPartySize req)" "parseInt (reqPartySize req) = Some n" "n \<le> 0"
  shows "createBooking s u req = (Inl InvalidPartySize, s)"
  using assms by (simp add: createBooking_def)

lemma eligible_boundary:
  assumes "t \<in> set (availableTimes tb)"
  shows "eligible (tableSize tb) t tb \<and> \<not> eligible (tableSize tb + 1) t tb"
  using assms by (simp add: eligible_def)

section \<open>Search\<close>



text \<open>
  With at most one entry per stored date, the first entry of the date is the entry of
  the date.
\<close>

lemma first_of_distinct_dates:
  assumes "distinct (map date es)"
  shows "(case filter (\<lambda>at. date at = sd) es of [] \<Rightarrow> False | e # _ \<Rightarrow> Q e)
         = (\<exists>e \<in> set es. date e = sd \<and> Q e)"
  using assms
proof (induction es)
  case Nil
  then show ?case by simp
next
  case (Cons a es)
  show ?case
  proof (cases "date a = sd")
    case True
    with Cons.prems have "\<forall>e \<in> set es. date e \<noteq> sd"
      by (auto simp: image_iff)
    with True show ?thesis by auto
  next
    case False
    with Cons show ?thesis by simp
  qed
qed

lemma matchingTable_iff:
  "matchingTable sz lo hi t =
     ((\<forall>n. sz = Some n \<longrightarrow> n \<le> tableSize t)
      \<and> (\<exists>sl \<in> set (availableTimes t). strLe lo sl \<and> strLe sl hi))"
  by (auto simp: matchingTable_def slotInWindow_def filter_empty_conv split: option.splits)

lemma sizeFilter_iff:
  "(sizeFilter ps = Some n) = (ps \<noteq> [] \<and> parseIntStr ps = Some n \<and> 0 < n)"
  by (auto simp: sizeFilter_def split: option.splits)

lemma pipelineMatch_iff:
  assumes "distinct (map date (availableTables r))"
  shows "pipelineMatch sd sz lo hi r =
     (\<exists>e \<in> set (availableTables r). date e = sd
        \<and> (\<exists>t \<in> set (tables e). matchingTable sz lo hi t))"
  unfolding pipelineMatch_def first_of_distinct_dates [OF assms]
  by (simp add: filter_empty_conv)

text \<open>
  The answers of a search with a date and a time.  A time that is no valid moment is
  answered with \<open>InvalidTimeFormat\<close>, whatever the date; a valid time with a date that
  is no valid date is answered with \<open>ServerError\<close>.  Otherwise a restaurant that passes
  the initial query (approved, location) and holds at most one entry per date is in the
  result exactly when it is in the collection and has, on the entry stored for the
  search date, a table that is large enough (only when the party size is given and
  parses to a positive integer) and has a slot between the two printed bounds of the
  window, compared as strings.  No other restaurant than those of the collection that
  pass the initial query is in the result.
\<close>

lemma search_with_date_and_time:
  assumes "qDate q \<noteq> []" "qTime q \<noteq> []"
  shows "(p (qTime q) = None \<longrightarrow> searchRestaurants rx p rs q = Inl InvalidTimeFormat)
     \<and> (p (qTime q) \<noteq> None \<and> searchDate (qDate q) = None \<longrightarrow>
          searchRestaurants rx p rs q = Inl ServerError)
     \<and> (\<forall>m sd. p (qTime q) = Some m \<and> searchDate (qDate q) = Some sd \<longrightarrow>
          (\<exists>res. searchRestaurants rx p rs q = Inr res
             \<and> (initialQuery rx (location q) r \<and> distinct (map date (availableTables r)) \<longrightarrow>
                  (r \<in> set res \<longleftrightarrow>
                     r \<in> set rs
                     \<and> (\<exists>e \<in> set (availableTables r). date e = sd
                          \<and> (\<exists>t \<in> set (tables e).
                                (\<forall>n. qPartySize q \<noteq> [] \<and> parseIntStr (qPartySize q) = Some n \<and> 0 < n
                                       \<longrightarrow> n \<le> tableSize t)
                                \<and> (\<exists>sl \<in> set (availableTimes t).
                                      strLe (startTimeStr m) sl \<and> strLe sl (endTimeStr m))))))
             \<and> (r \<in> set res \<longrightarrow> r \<in> set rs \<and> initialQuery rx (location q) r)))"
  using assms
  by (auto simp add: searchRestaurants_def pipelineMatch_iff matchingTable_iff sizeFilter_iff)

lemma search_answers_examples:
  "searchRestaurants (=) parseHHmm [restaurantX] (queryX ''2024-06-01'' ''18:15'' ''4'') = Inr [restaurantX]
   \<and> searchRestaurants (=) parseHHmm [restaurantX] (queryX ''2024-06-01'' ''19:01'' ''4'') = Inr []
   \<and> searchRestaurants (=) parseHHmm [restaurantX] (queryX ''2024-06-01'' ''18:15'' ''5'') = Inr []
   \<and> searchRestaurants (=) parseHHmm [restaurantX] (queryX ''2024-06-01'' ''18:15'' ''many'') = Inr [restaurantX]
   \<and> searchRestaurants (=) parseHHmm [restaurantX] (queryX ''2024-06-01'' ''6pm'' ''4'') = Inr []
   \<and> searchRestaurants (=) parseHHmm [restaurantX] (queryX ''2024-06-01'' ''soon'' ''4'') = Inl InvalidTimeFormat
   \<and> searchRestaurants (=) parseHHmm [restaurantX] (queryX ''2024-06'' ''soon'' ''4'') = Inl InvalidTimeFormat
   \<and> searchRestaurants (=) parseHHmm [restaurantX] (queryX ''2024-06'' ''18:15'' ''4'') = Inl ServerError"
  by (simp add: search_defs eval_defs Let_def)

text \<open>
  C8.  The window is built as the requested time less and plus 30 minutes, but the two
  bounds are printed as times of day and compared with the slots as strings.  For a
  requested time from 23:30 on (and before 00:30) the upper bound lies past midnight and
  prints as the smaller string: at 23:45 the bounds are 23:15 and 00:15.  A restaurant
  with a table of size 4 and the slots 23:30 and 23:45 on 2024-06-01 is found by the
  search for that date and party size at 23:20, but not at 23:45, though one slot is the
  requested time itself and the other lies 15 minutes before it.
\<close>

theorem search_window_lost_across_midnight:
  "parseHHmm ''23:45'' = Some 1425
   \<and> startTimeStr 1425 = ''23:15'' \<and> endTimeStr 1425 = ''00:15''
   \<and> searchRestaurants (=) parseHHmm [restaurantLate] (queryX ''2024-06-01'' ''23:45'' ''4'') = Inr []
   \<and> searchRestaurants (=) parseHHmm [restaurantLate] (queryX ''2024-06-01'' ''23:20'' ''4'')
        = Inr [restaurantLate]"
  by (simp add: search_defs eval_defs Let_def)

section \<open>Cancellation: authorization and repeated cancellation\<close>




text \<open>
  C4, as stated, fails on the second version: the second cancellation of a booking is
  answered with the merged 404 \<open>BookingNotFoundOrAlreadyCancelled\<close>, not with
  \<open>AlreadyCancelled\<close>.
\<close>

theorem second_cancelV2_merged_error:
  "fst (cancelBookingV2 parseHHmm stateBooked diner 0) = Inr (bookingX\<lparr>status := ''cancelled''\<rparr>)
   \<and> fst (cancelBookingV2 parseHHmm (snd (cancelBookingV2 parseHHmm stateBooked diner 0)) diner 0)
        = Inl BookingNotFoundOrAlreadyCancelled
   \<and> fst (cancelBookingV2 parseHHmm (snd (cancelBookingV2 parseHHmm stateBooked diner 0)) diner 0)
        \<noteq> Inl AlreadyCancelled"
  by (simp add: stateBooked_eq cancelBookingV2_def bookingX_def diner_def Let_def)

text \<open>What a successful cancellation says about the state before and after.\<close>

lemma cancelBooking_success:
  assumes "cancelBooking tz s u bid = (Inr b, s1)"
  shows "bid < length (bookings s) \<and> (userId (bookings s ! bid) = uid u \<or> role u = ''admin'')
       \<and> bookings s1 = (bookings s)[bid := (bookings s ! bid)\<lparr>status := ''cancelled''\<rparr>]"
  using assms
  by (auto simp add: cancelBooking_def Let_def split: if_splits option.splits)

lemma cancelBookingV2_success:
  assumes "cancelBookingV2 p s u bid = (Inr b, s1)"
  shows "bid < length (bookings s) \<and> userId (bookings s ! bid) = uid u
       \<and> bookings s1 = (bookings s)[bid := (bookings s ! bid)\<lparr>status := ''cancelled''\<rparr>]"
  using assms
  by (auto simp add: cancelBookingV2_def Let_def split: if_splits option.splits)

text \<open>
  C4, amended.  After a successful cancellation, a second cancellation of the same
  booking by the same user is rejected and leaves the whole state, inventory included,
  as it is: with \<open>AlreadyCancelled\<close> in the first version, with the merged error
  \<open>BookingNotFoundOrAlreadyCancelled\<close> in the second.
\<close>

theorem second_cancel_rejected:
  "(cancelBooking tz s u bid = (Inr b, s1) \<longrightarrow>
      cancelBooking tz' s1 u bid = (Inl AlreadyCancelled, s1))
   \<and> (cancelBookingV2 p s u bid = (Inr b, s1) \<longrightarrow>
      cancelBookingV2 p' s1 u bid = (Inl BookingNotFoundOrAlreadyCancelled, s1))"
proof (intro conjI impI)
  assume "cancelBooking tz s u bid = (Inr b, s1)"
  from cancelBooking_success [OF this]
  show "cancelBooking tz' s1 u bid = (Inl AlreadyCancelled, s1)"
    by (auto simp add: cancelBooking_def)
next
  assume "cancelBookingV2 p s u bid = (Inr b, s1)"
  from cancelBookingV2_success [OF this]
  show "cancelBookingV2 p' s1 u bid = (Inl BookingNotFoundOrAlreadyCancelled, s1)"
    by (auto simp add: cancelBookingV2_def)
qed

text \<open>The two cancellations of the booking of the concrete inventory.\<close>

lemma cancel_stateBooked:
  "cancelBooking tz stateBooked diner 0 =
     (Inr (bookingX\<lparr>status := ''cancelled''\<rparr>),
      \<lparr>restaurants = [7 \<mapsto> restaurantX\<lparr>availableTables := [\<lparr>date = day0601,
           tables = [table4\<lparr>availableTimes := [''18:30'', ''18:00'']\<rparr>]\<rparr>], timesBookedToday := 1\<rparr>],
       bookings = [bookingX\<lparr>status := ''cancelled''\<rparr>]\<rparr>)"
  by (simp add: stateBooked_eq cancelBooking_def bookingX_def diner_def releaseSlot_def
        restaurantX_def table4_def Let_def)

lemma cancelV2_stateBooked:
  "cancelBookingV2 parseHHmm stateBooked diner 0 =
     (Inr (bookingX\<lparr>status := ''cancelled''\<rparr>),
      \<lparr>restaurants = [7 \<mapsto> restaurantX\<lparr>availableTables := [\<lparr>date = day0601,
           tables = [table4]\<rparr>], timesBookedToday := 1\<rparr>],
       bookings = [bookingX\<lparr>status := ''cancelled''\<rparr>]\<rparr>)"
  by (simp add: stateBooked_eq cancelBookingV2_def bookingX_def diner_def releaseSlotV2_def
        restaurantX_def table4_def Let_def specificTableDefinition_def sortBy_def timeDiff_def
        parseHHmm_examples utcDay_def)

theorem second_cancel_rejected_witness:
  "cancelBooking 0 stateBooked diner 0 = (Inr (bookingX\<lparr>status := ''cancelled''\<rparr>), snd (cancelBooking 0 stateBooked diner 0))
   \<and> cancelBooking 0 (snd (cancelBooking 0 stateBooked diner 0)) diner 0
       = (Inl AlreadyCancelled, snd (cancelBooking 0 stateBooked diner 0))
   \<and> cancelBookingV2 parseHHmm (snd (cancelBookingV2 parseHHmm stateBooked diner 0)) diner 0
       = (Inl BookingNotFoundOrAlreadyCancelled, snd (cancelBookingV2 parseHHmm stateBooked diner 0))"
  using second_cancel_rejected [of 0 stateBooked diner 0 "bookingX\<lparr>status := ''cancelled''\<rparr>"
      "snd (cancelBooking 0 stateBooked diner 0)" 0 parseHHmm]
    second_cancel_rejected [of 0 stateBooked diner 0 "bookingX\<lparr>status := ''cancelled''\<rparr>"
      "snd (cancelBookingV2 parseHHmm stateBooked diner 0)" 0 parseHHmm parseHHmm]
  by (simp add: cancel_stateBooked cancelV2_stateBooked)

section \<open>Round trip\<close>

text \<open>
  C2.  The first version of \<^verbatim>\<open>cancelBooking\<close> pushes the slot to the end of the list and
  does not sort: booking 18:00 out of 18:00, 18:30 and cancelling leaves 18:30, 18:00,
  whatever the zone of the server.
\<close>

theorem cancel_appends_slot_unsorted:
  "slotsOf stateX = [[[''18:00'', ''18:30'']]]
   \<and> createBooking stateX diner (requestX (JNum 4) ''18:00'') = (Inr bookingX, stateBooked)
   \<and> slotsOf stateBooked = [[[''18:30'']]]
   \<and> (\<forall>tz. fst (cancelBooking tz stateBooked diner 0) = Inr (bookingX\<lparr>status := ''cancelled''\<rparr>)
          \<and> slotsOf (snd (cancelBooking tz stateBooked diner 0)) = [[[''18:30'', ''18:00'']]])"
  by (simp add: cancel_stateBooked)
     (simp add: stateBooked_eq createBooking_def bookingX_def eval_defs Let_def)

section \<open>Date lookup\<close>

text \<open>
  C9.  An entry stored at noon UTC of 2024-06-01.  \<^verbatim>\<open>createBooking\<close> compares UTC days
  and books on it.  The search compares the stored instant itself with UTC midnight and
  does not find it, though it finds the same entry stored at midnight.  The first
  \<^verbatim>\<open>cancelBooking\<close> compares days of the server's zone: five hours west of UTC the
  booking's date, UTC midnight, falls on the day before, the entry is not found and the
  slot stays consumed.  The second \<^verbatim>\<open>cancelBooking\<close> compares UTC days and gives the
  slot back.
\<close>

theorem date_lookup_not_normalized:
  "utcDay (day0601 + 43200000) = utcDay day0601
   \<and> createBooking stateNoon diner (requestX (JNum 4) ''18:00'') = (Inr bookingX, stateNoonBooked)
   \<and> slotsOf stateNoonBooked = [[[''18:30'']]]
   \<and> searchRestaurants (=) parseHHmm [restaurantNoon] (queryX ''2024-06-01'' ''18:00'' ''4'') = Inr []
   \<and> searchRestaurants (=) parseHHmm [restaurantX] (queryX ''2024-06-01'' ''18:00'' ''4'') = Inr [restaurantX]
   \<and> fst (cancelBooking (- 300) stateNoonBooked diner 0) = Inr (bookingX\<lparr>status := ''cancelled''\<rparr>)
   \<and> slotsOf (snd (cancelBooking (- 300) stateNoonBooked diner 0)) = [[[''18:30'']]]
   \<and> slotsOf (snd (cancelBookingV2 parseHHmm stateNoonBooked diner 0)) = [[[''18:00'', ''18:30'']]]"
proof -
  have a: "utcDay (day0601 + 43200000) = utcDay day0601"
    by (simp add: eval_defs)
  have b: "createBooking stateNoon diner (requestX (JNum 4) ''18:00'') = (Inr bookingX, stateNoonBooked)"
    by (simp add: stateNoonBooked_eq createBooking_def bookingX_def eval_defs Let_def)
  have c: "slotsOf stateNoonBooked = [[[''18:30'']]]"
    by (simp add: stateNoonBooked_eq slotsOf_def table4_def)
  have d: "searchRestaurants (=) parseHHmm [restaurantNoon] (queryX ''2024-06-01'' ''18:00'' ''4'') = Inr []"
    by (simp add: search_defs eval_defs Let_def)
  have e: "searchRestaurants (=) parseHHmm [restaurantX] (queryX ''2024-06-01'' ''18:00'' ''4'') = Inr [restaurantX]"
    by (simp add: search_defs eval_defs Let_def)
  have f: "fst (cancelBooking (- 300) stateNoonBooked diner 0) = Inr (bookingX\<lparr>status := ''cancelled''\<rparr>)"
    by (simp add: stateNoonBooked_eq cancelBooking_def bookingX_def eval_defs Let_def)
  have g: "slotsOf (snd (cancelBooking (- 300) stateNoonBooked diner 0)) = [[[''18:30'']]]"
    by (simp add: stateNoonBooked_eq cancelBooking_def bookingX_def eval_defs Let_def)
  have h: "slotsOf (snd (cancelBookingV2 parseHHmm stateNoonBooked diner 0)) = [[[''18:00'', ''18:30'']]]"
    by (simp add: stateNoonBooked_eq cancelBookingV2_def bookingX_def eval_defs Let_def)
  show ?thesis
    using a b c d e f g h by simp
qed

section \<open>The slot invariant\<close>

subsection \<open>In-place updates on lists with distinct keys\<close>

lemma find_SomeD: "List.find P xs = Some x \<Longrightarrow> P x \<and> x \<in> set xs"
  by (induction xs) (auto split: if_splits)

lemma updateFirst_cong:
  "(\<And>x. x \<in> set xs \<Longrightarrow> p x = q x) \<Longrightarrow> (\<And>x. x \<in> set xs \<Longrightarrow> f x = g x)
     \<Longrightarrow> updateFirst p f xs = updateFirst q g xs"
  by (induction xs) auto

lemma updateFirst_key:
  "distinct (map k xs) \<Longrightarrow>
     updateFirst (\<lambda>x. k x = c) f xs = map (\<lambda>x. if k x = c then f x else x) xs"
proof (induction xs)
  case Nil
  then show ?case by simp
next
  case (Cons a xs)
  show ?case
  proof (cases "k a = c")
    case True
    with Cons.prems have "\<forall>x \<in> set xs. k x \<noteq> c" by (auto simp: image_iff)
    then have "map (\<lambda>x. if k x = c then f x else x) xs = xs"
      by (simp add: map_idI)
    with True show ?thesis by simp
  next
    case False
    with Cons show ?thesis by simp
  qed
qed

lemma updateFirst_find:
  "distinct (map k xs) \<Longrightarrow> List.find p xs = Some y \<Longrightarrow>
     updateFirst p f xs = map (\<lambda>x. if k x = k y then f x else x) xs"
proof (induction xs)
  case Nil
  then show ?case by simp
next
  case (Cons a xs)
  show ?case
  proof (cases "p a")
    case True
    with Cons.prems have y: "y = a" by simp
    from Cons.prems have "\<forall>x \<in> set xs. k x \<noteq> k a" by (auto simp: image_iff)
    then have "map (\<lambda>x. if k x = k a then f x else x) xs = xs"
      by (simp add: map_idI)
    with True y show ?thesis by simp
  next
    case False
    with Cons.prems have f: "List.find p xs = Some y" by simp
    then have "y \<in> set xs" by (simp add: find_SomeD)
    with Cons.prems have "k a \<noteq> k y" by auto
    with False Cons f show ?thesis by simp
  qed
qed

subsection \<open>Days of instants at UTC midnight\<close>

lemma midnight_utcDay:
  assumes "a mod msPerDay = 0" "b mod msPerDay = 0"
  shows "(utcDay a = utcDay b) = (a = b)"
proof
  assume h: "utcDay a = utcDay b"
  have "a = utcDay a * msPerDay" "b = utcDay b * msPerDay"
    using assms by (auto simp: utcDay_def)
  with h show "a = b" by simp
qed simp


lemma midnight_startOfUtcDay:
  assumes "a mod msPerDay = 0"
  shows "(utcDay a = utcDay d) = (a = startOfUtcDay d)"
proof -
  have "startOfUtcDay d mod msPerDay = 0" by (simp add: startOfUtcDay_def)
  moreover have "utcDay (startOfUtcDay d) = utcDay d"
    by (simp add: startOfUtcDay_def utcDay_def msPerDay_def)
  ultimately show ?thesis using midnight_utcDay [OF assms, of "startOfUtcDay d"] by simp
qed

subsection \<open>Updating one table of one entry\<close>

lemma skeleton_mapSlot:
  assumes "\<And>tb. tableId (g tb) = tableId tb"
  shows "skeleton (mapSlot d tid g r) = skeleton r"
proof -
  have "\<And>e. map tableId (map (\<lambda>tb. if tableId tb = tid then g tb else tb) (tables e))
          = map tableId (tables e)"
    by (simp add: o_def assms)
  then show ?thesis
    unfolding skeleton_def mapSlot_def
    by (simp add: o_def assms)
qed


text \<open>Sorting permutes.\<close>

lemma set_insertBy: "set (insertBy c a xs) = insert a (set xs)"
  by (induction xs) auto

lemma set_sortBy: "set (sortBy c xs) = set xs"
  unfolding sortBy_def by (induction xs) (auto simp: set_insertBy)

subsection \<open>Well-formed inventories\<close>


lemma wfRestaurant_skeleton:
  "wfRestaurant r =
     (distinct (map fst (skeleton r))
      \<and> (\<forall>(d, ids) \<in> set (skeleton r). d mod msPerDay = 0 \<and> distinct ids))"
  unfolding wfRestaurant_def skeleton_def by (auto simp: o_def)

lemma wf_entry_unique:
  assumes "wfRestaurant r" "e \<in> set (availableTables r)" "e' \<in> set (availableTables r)"
    "date e = date e'"
  shows "e = e'"
  using assms unfolding wfRestaurant_def by (meson distinct_map inj_onD)

lemma wf_table_unique:
  assumes "wfRestaurant r" "e \<in> set (availableTables r)" "tb \<in> set (tables e)"
    "tb' \<in> set (tables e)" "tableId tb = tableId tb'"
  shows "tb = tb'"
  using assms unfolding wfRestaurant_def by (meson distinct_map inj_onD)


text \<open>
  On a well-formed inventory the updates of the three controllers are updates of the one
  table with the id, in the one entry with the date.
\<close>

lemma consumeSlot_mapSlot:
  assumes wf: "wfRestaurant r"
    and e: "availabilityForDate r d = Some e"
    and tb: "suitableTable e n t = Some tb"
  shows "consumeSlot r d n t =
     mapSlot (date e) (tableId tb)
       (\<lambda>table. table\<lparr>availableTimes := filter (\<lambda>x. x \<noteq> t) (availableTimes table)\<rparr>) r"
proof -
  let ?g = "\<lambda>table. table\<lparr>availableTimes := filter (\<lambda>x. x \<noteq> t) (availableTimes table)\<rparr>"
  let ?F = "\<lambda>entry. entry\<lparr>tables := updateFirst (eligible n t) ?g (tables entry)\<rparr>"
  let ?F' = "\<lambda>entry. entry\<lparr>tables := map (\<lambda>x. if tableId x = tableId tb then ?g x else x) (tables entry)\<rparr>"
  from e have ein: "e \<in> set (availableTables r)" and ed: "utcDay (date e) = utcDay d"
    unfolding availabilityForDate_def by (auto dest: find_SomeD)
  have mid: "\<And>x. x \<in> set (availableTables r) \<Longrightarrow> date x mod msPerDay = 0"
    using wf unfolding wfRestaurant_def by blast
  have p: "\<And>x. x \<in> set (availableTables r) \<Longrightarrow>
             (utcDay (date x) = utcDay d) = (date x = date e)"
    using midnight_utcDay [OF mid mid [OF ein]] ed by simp
  have d1: "distinct (map date (availableTables r))"
    using wf unfolding wfRestaurant_def by blast
  have d2: "distinct (map tableId (tables e))"
    using wf ein unfolding wfRestaurant_def by blast
  have Fe: "?F e = ?F' e"
    using updateFirst_find [OF d2, of "eligible n t" tb ?g] tb
    unfolding suitableTable_def by simp
  have "updateFirst (\<lambda>entry. utcDay (date entry) = utcDay d) ?F (availableTables r)
      = updateFirst (\<lambda>entry. date entry = date e) ?F (availableTables r)"
    by (rule updateFirst_cong) (simp_all add: p)
  also have "\<dots> = map (\<lambda>x. if date x = date e then ?F x else x) (availableTables r)"
    by (rule updateFirst_key [OF d1])
  also have "\<dots> = map (\<lambda>x. if date x = date e then ?F' x else x) (availableTables r)"
  proof (rule map_cong [OF refl])
    fix x assume x: "x \<in> set (availableTables r)"
    show "(if date x = date e then ?F x else x) = (if date x = date e then ?F' x else x)"
    proof (cases "date x = date e")
      case True
      then have "x = e" using wf_entry_unique [OF wf x ein] by simp
      with Fe show ?thesis by simp
    next
      case False
      then show ?thesis by simp
    qed
  qed
  finally show ?thesis
    unfolding consumeSlot_def mapSlot_def by simp
qed


lemma releaseSlotV2_mapSlot:
  assumes wf: "wfRestaurant r" and dd: "bookingDate b mod msPerDay = 0"
    and tid: "bookedTableDefinitionId b = Some tid"
  shows "releaseSlotV2 p r b =
     mapSlot (bookingDate b) tid
       (\<lambda>table. if time b \<in> set (availableTimes table) then table
                else table\<lparr>availableTimes := sortBy (timeDiff p) (availableTimes table @ [time b])\<rparr>) r"
proof -
  let ?g = "\<lambda>table. if time b \<in> set (availableTimes table) then table
                else table\<lparr>availableTimes := sortBy (timeDiff p) (availableTimes table @ [time b])\<rparr>"
  let ?F = "\<lambda>entry. entry\<lparr>tables := updateFirst (specificTableDefinition b) ?g (tables entry)\<rparr>"
  let ?F' = "\<lambda>entry. entry\<lparr>tables := map (\<lambda>x. if tableId x = tid then ?g x else x) (tables entry)\<rparr>"
  have mid: "\<And>x. x \<in> set (availableTables r) \<Longrightarrow> date x mod msPerDay = 0"
    using wf unfolding wfRestaurant_def by blast
  have d1: "distinct (map date (availableTables r))"
    using wf unfolding wfRestaurant_def by blast
  have sp: "specificTableDefinition b = (\<lambda>table. tableId table = tid)"
    using tid by (simp add: specificTableDefinition_def fun_eq_iff)
  have F: "\<And>x. x \<in> set (availableTables r) \<Longrightarrow> ?F x = ?F' x"
  proof -
    fix x assume "x \<in> set (availableTables r)"
    then have "distinct (map tableId (tables x))"
      using wf unfolding wfRestaurant_def by blast
    from updateFirst_key [OF this, of tid ?g] show "?F x = ?F' x" unfolding sp by simp
  qed
  have "updateFirst (\<lambda>entry. utcDay (date entry) = utcDay (bookingDate b)) ?F (availableTables r)
      = updateFirst (\<lambda>entry. date entry = bookingDate b) ?F' (availableTables r)"
    by (rule updateFirst_cong) (simp_all add: midnight_utcDay [OF mid dd] F)
  also have "\<dots> = map (\<lambda>x. if date x = bookingDate b then ?F' x else x) (availableTables r)"
    by (rule updateFirst_key [OF d1])
  finally show ?thesis
    unfolding releaseSlotV2_def mapSlot_def by simp
qed

subsection \<open>Every operation preserves the invariant\<close>

lemma skeleton_timesBookedToday [simp]:
  "skeleton (r\<lparr>timesBookedToday := x\<rparr>) = skeleton r"
  by (simp add: skeleton_def)

lemma hasSlot_timesBookedToday [simp]:
  "hasSlot (r\<lparr>timesBookedToday := x\<rparr>) = hasSlot r"
  by (simp add: hasSlot_def fun_eq_iff)











subsection \<open>The invariant on reachable states\<close>




section \<open>Round trip of the second cancelBooking\<close>

text \<open>
  Sorting with the comparator of the second \<^verbatim>\<open>cancelBooking\<close> puts a slot that was
  taken out of a chronological list back where it was.
\<close>

lemma timeDiff_le:
  "p a = Some x \<Longrightarrow> p b = Some y \<Longrightarrow> (timeDiff p a b \<le> 0) = (x \<le> y)"
  by (simp add: timeDiff_def)

lemma sorted_insertBy:
  assumes "\<forall>x \<in> set (a # ys). p x \<noteq> None" "sorted (map (\<lambda>x. the (p x)) ys)"
  shows "sorted (map (\<lambda>x. the (p x)) (insertBy (timeDiff p) a ys))"
  using assms
proof (induction ys)
  case Nil
  then show ?case by simp
next
  case (Cons b ys)
  from Cons.prems obtain x y where xy: "p a = Some x" "p b = Some y" by auto
  show ?case
  proof (cases "x \<le> y")
    case True
    with xy Cons.prems show ?thesis
      by (auto simp: timeDiff_le)
  next
    case False
    with xy Cons show ?thesis
      by (auto simp: timeDiff_le set_insertBy)
  qed
qed

lemma distinct_insertBy:
  "distinct (map f (insertBy c a ys)) = (f a \<notin> f ` set ys \<and> distinct (map f ys))"
  by (induction ys) (auto simp: set_insertBy)

lemma chronological_sortBy:
  assumes "\<forall>x \<in> set zs. p x \<noteq> None" "distinct (map (\<lambda>x. the (p x)) zs)"
  shows "sorted (map (\<lambda>x. the (p x)) (sortBy (timeDiff p) zs))
       \<and> distinct (map (\<lambda>x. the (p x)) (sortBy (timeDiff p) zs))"
  using assms
proof (induction zs)
  case Nil
  then show ?case by (simp add: sortBy_def)
next
  case (Cons a zs)
  have s: "sortBy (timeDiff p) (a # zs) = insertBy (timeDiff p) a (sortBy (timeDiff p) zs)"
    by (simp add: sortBy_def)
  from Cons show ?case
    unfolding s by (auto simp: distinct_insertBy set_sortBy intro!: sorted_insertBy)
qed

lemma sortBy_restores:
  assumes c: "chronological p xs" and t: "t \<in> set xs"
  shows "sortBy (timeDiff p) (filter (\<lambda>x. x \<noteq> t) xs @ [t]) = xs"
proof -
  let ?k = "\<lambda>x. the (p x)"
  let ?zs = "filter (\<lambda>x. x \<noteq> t) xs @ [t]"
  from c have par: "\<forall>x \<in> set xs. p x \<noteq> None" and srt: "sorted (map ?k xs)"
    and dst: "distinct (map ?k xs)"
    by (simp_all add: chronological_def)
  have set: "set ?zs = set xs" using t by auto
  from dst have inj: "inj_on ?k (set xs)" by (simp add: distinct_map)
  have "distinct (map ?k (filter (\<lambda>x. x \<noteq> t) xs))"
    using dst by (simp add: distinct_map_filter)
  moreover have "?k t \<notin> ?k ` set (filter (\<lambda>x. x \<noteq> t) xs)"
    using inj t by (auto dest: inj_onD)
  ultimately have dz: "distinct (map ?k ?zs)" by simp
  have pz: "\<forall>x \<in> set ?zs. p x \<noteq> None" using par t by auto
  from chronological_sortBy [OF pz dz]
  have "sorted (map ?k (sortBy (timeDiff p) ?zs))" "distinct (map ?k (sortBy (timeDiff p) ?zs))"
    by simp_all
  moreover have "set (sortBy (timeDiff p) ?zs) = set xs"
    by (simp only: set_sortBy set)
  ultimately show ?thesis
    using map_sorted_distinct_set_unique [of ?k "sortBy (timeDiff p) ?zs" xs] inj srt dst
    by simp
qed

text \<open>
  On a well-formed restaurant whose tables hold their slots in chronological order, a
  booking followed by its cancellation with the second \<^verbatim>\<open>cancelBooking\<close> leaves the
  whole inventory of the restaurant as it was before the booking: same slots, same order.
\<close>

lemma mapSlot_timesBookedToday:
  "mapSlot d tid g (r\<lparr>timesBookedToday := x\<rparr>) = (mapSlot d tid g r)\<lparr>timesBookedToday := x\<rparr>"
  by (simp add: mapSlot_def)

lemma wfRestaurant_timesBookedToday [simp]:
  "wfRestaurant (r\<lparr>timesBookedToday := x\<rparr>) = wfRestaurant r"
  by (simp add: wfRestaurant_def)

lemma wfRestaurant_mapSlot:
  assumes "\<And>tb. tableId (g tb) = tableId tb" "wfRestaurant r"
  shows "wfRestaurant (mapSlot d tid g r)"
  using assms(2) skeleton_mapSlot [of g d tid r, OF assms(1)]
  by (simp add: wfRestaurant_skeleton)

lemma mapSlot_mapSlot:
  assumes "\<And>tb. tableId (f tb) = tableId tb"
  shows "availableTables (mapSlot d tid g (mapSlot d tid f r))
       = availableTables (mapSlot d tid (\<lambda>tb. g (f tb)) r)"
  unfolding mapSlot_def by (auto simp: assms)

lemma mapSlot_id:
  assumes "\<And>e tb. e \<in> set (availableTables r) \<Longrightarrow> date e = d \<Longrightarrow> tb \<in> set (tables e)
             \<Longrightarrow> tableId tb = tid \<Longrightarrow> h tb = tb"
  shows "availableTables (mapSlot d tid h r) = availableTables r"
proof -
  have "\<And>e. e \<in> set (availableTables r) \<Longrightarrow> date e = d \<Longrightarrow>
          map (\<lambda>tb. if tableId tb = tid then h tb else tb) (tables e) = tables e"
    by (rule map_idI) (simp add: assms)
  then show ?thesis
    unfolding mapSlot_def by (auto intro!: map_idI)
qed

lemma createBooking_success:
  assumes "createBooking s u req = (Inr b, s1)"
  shows "\<exists>rid d n r e tb.
         reqRestaurantId req = Some rid \<and> restaurants s rid = Some r
         \<and> availabilityForDate r d = Some e \<and> suitableTable e n (reqTime req) = Some tb
         \<and> b = \<lparr>userId = uid u, restaurantId = rid, bookingDate = startOfUtcDay d,
                 time = reqTime req, partySize = n, bookedTableSize = tableSize tb,
                 bookedTableDefinitionId = Some (tableId tb), status = ''confirmed''\<rparr>
         \<and> s1 = \<lparr>restaurants = (restaurants s)(rid \<mapsto>
                  (consumeSlot r d n (reqTime req))
                    \<lparr>timesBookedToday := timesBookedToday (consumeSlot r d n (reqTime req)) + 1\<rparr>),
                  bookings = bookings s @ [b]\<rparr>"
  using assms
  by (auto simp: createBooking_def Let_def split: option.splits if_splits)

lemma createBooking_cancelV2_round_trip:
  assumes r: "restaurants s rid = Some r" and wf: "wfRestaurant r"
    and ch: "\<forall>e \<in> set (availableTables r). \<forall>tb \<in> set (tables e). chronological p (availableTimes tb)"
    and rq: "reqRestaurantId req = Some rid"
    and cr: "createBooking s u req = (Inr b, s1)"
  shows "\<exists>r2. fst (cancelBookingV2 p s1 u (length (bookings s))) = Inr (b\<lparr>status := ''cancelled''\<rparr>)
           \<and> restaurants (snd (cancelBookingV2 p s1 u (length (bookings s)))) rid = Some r2
           \<and> availableTables r2 = availableTables r"
proof -
  from createBooking_success [OF cr] rq r obtain d n e and tb :: tableDefinition where
    e: "availabilityForDate r d = Some e" and tb: "suitableTable e n (reqTime req) = Some tb"
    and b: "b = \<lparr>userId = uid u, restaurantId = rid, bookingDate = startOfUtcDay d,
                 time = reqTime req, partySize = n, bookedTableSize = tableSize tb,
                 bookedTableDefinitionId = Some (tableId tb), status = ''confirmed''\<rparr>"
    and s1: "s1 = \<lparr>restaurants = (restaurants s)(rid \<mapsto>
                  (consumeSlot r d n (reqTime req))
                    \<lparr>timesBookedToday := timesBookedToday (consumeSlot r d n (reqTime req)) + 1\<rparr>),
                  bookings = bookings s @ [b]\<rparr>"
    by auto
  let ?t = "reqTime req"
  let ?f = "\<lambda>table. table\<lparr>availableTimes := filter (\<lambda>x. x \<noteq> ?t) (availableTimes table)\<rparr>"
  let ?g = "\<lambda>table. if ?t \<in> set (availableTimes table) then table
                else table\<lparr>availableTimes := sortBy (timeDiff p) (availableTimes table @ [?t])\<rparr>"
  let ?b1 = "b\<lparr>status := ''cancelled''\<rparr>"
  let ?r1 = "(mapSlot (date e) (tableId tb) ?f r)\<lparr>timesBookedToday :=
               timesBookedToday (mapSlot (date e) (tableId tb) ?f r) + 1\<rparr>"
  from e have ein: "e \<in> set (availableTables r)" and ed: "utcDay (date e) = utcDay d"
    unfolding availabilityForDate_def by (auto dest: find_SomeD)
  from wf ein have mid: "date e mod msPerDay = 0"
    unfolding wfRestaurant_def by blast
  with ed have dd: "startOfUtcDay d = date e"
    by (simp add: midnight_startOfUtcDay)
  from tb have tbin: "tb \<in> set (tables e)" and tin: "?t \<in> set (availableTimes tb)"
    unfolding suitableTable_def eligible_def by (auto dest: find_SomeD)
  have cs: "consumeSlot r d n ?t = mapSlot (date e) (tableId tb) ?f r"
    by (rule consumeSlot_mapSlot [OF wf e tb])
  have w1: "wfRestaurant ?r1"
    by (simp add: wfRestaurant_mapSlot wf)
  have rel: "releaseSlotV2 p ?r1 ?b1 = mapSlot (date e) (tableId tb) ?g ?r1"
    using releaseSlotV2_mapSlot [of ?r1 ?b1 "tableId tb" p] w1 mid
    by (simp add: b dd cong: if_cong)
  have res: "cancelBookingV2 p s1 u (length (bookings s))
      = (Inr ?b1, s1\<lparr>bookings := (bookings s1)[length (bookings s) := ?b1],
                     restaurants := (restaurants s1)(rid \<mapsto> releaseSlotV2 p ?r1 ?b1)\<rparr>)"
    unfolding s1 cs by (simp add: cancelBookingV2_def Let_def b)
  have "availableTables (mapSlot (date e) (tableId tb) ?g ?r1)
      = availableTables (mapSlot (date e) (tableId tb) (\<lambda>x. ?g (?f x)) r)"
    by (simp add: mapSlot_timesBookedToday mapSlot_mapSlot)
  also have "\<dots> = availableTables r"
  proof (rule mapSlot_id)
    fix e' and tb' :: tableDefinition
    assume a: "e' \<in> set (availableTables r)" "date e' = date e" "tb' \<in> set (tables e')"
      "tableId tb' = tableId tb"
    from wf_entry_unique [OF wf a(1) ein a(2)] have "e' = e" .
    with a wf_table_unique [OF wf ein _ tbin] have "tb' = tb" by blast
    moreover from ch ein tbin have "chronological p (availableTimes tb)" by blast
    ultimately show "?g (?f tb') = tb'"
      using sortBy_restores [of p "availableTimes tb" ?t] tin by simp
  qed
  finally show ?thesis
    unfolding res rel by simp
qed

section \<open>The tolerance window in minutes\<close>

text \<open>
  On times in the wire format the order of the strings is the order of the times of day.
\<close>

lemma digit_cases:
  assumes "0 \<le> n" "n \<le> (9::int)"
  shows "n \<in> {0, 1, 2, 3, 4, 5, 6, 7, 8, 9}"
  using assms by (simp add: insert_iff) arith

lemma of_char_digitChar:
  assumes "0 \<le> n" "n \<le> 9"
  shows "(of_char (digitChar n) :: nat) = nat (48 + n)"
  using digit_cases [OF assms] by (auto simp: digitChar_def)

lemma digitChar_eq:
  assumes "0 \<le> a" "a \<le> 9" "0 \<le> b" "b \<le> 9"
  shows "(digitChar a = digitChar b) = (a = b)"
proof
  assume "digitChar a = digitChar b"
  then have "(of_char (digitChar a) :: nat) = of_char (digitChar b)" by simp
  then show "a = b" using assms by (simp add: of_char_digitChar)
qed simp

lemma hhmm_digits:
  fixes a :: int
  assumes "0 \<le> a" "a < 1440"
  shows "0 \<le> a div 60 div 10 \<and> a div 60 div 10 \<le> 9 \<and> 0 \<le> a div 60 mod 10 \<and> a div 60 mod 10 \<le> 9
     \<and> 0 \<le> a mod 60 div 10 \<and> a mod 60 div 10 \<le> 5 \<and> 0 \<le> a mod 60 mod 10 \<and> a mod 60 mod 10 \<le> 9"
proof -
  have "0 \<le> a div 60" "a div 60 < 24" using assms by simp_all
  then have 1: "0 \<le> a div 60 div 10" "a div 60 div 10 \<le> 9" by simp_all
  have 2: "0 \<le> a div 60 mod 10" "a div 60 mod 10 \<le> 9" by simp_all
  have "0 \<le> a mod 60" "a mod 60 < 60" by simp_all
  then have 3: "0 \<le> a mod 60 div 10" "a mod 60 div 10 \<le> 5" by simp_all
  have 4: "0 \<le> a mod 60 mod 10" "a mod 60 mod 10 \<le> 9" by simp_all
  from 1 2 3 4 show ?thesis by blast
qed

lemma hhmm_value:
  fixes a :: int
  shows "a = 600 * (a div 60 div 10) + 60 * (a div 60 mod 10) + 10 * (a mod 60 div 10) + a mod 60 mod 10"
proof -
  have "a = 60 * (a div 60) + a mod 60" by simp
  moreover have "a div 60 = 10 * (a div 60 div 10) + a div 60 mod 10" by simp
  moreover have "a mod 60 = 10 * (a mod 60 div 10) + a mod 60 mod 10" by simp
  ultimately show ?thesis by linarith
qed

lemma lex4:
  fixes h1 h0 m1 m0 k1 k0 n1 n0 :: int
  assumes "0 \<le> h0" "h0 \<le> 9" "0 \<le> m1" "m1 \<le> 5" "0 \<le> m0" "m0 \<le> 9"
    "0 \<le> k0" "k0 \<le> 9" "0 \<le> n1" "n1 \<le> 5" "0 \<le> n0" "n0 \<le> 9"
  shows "(h1 < k1 \<or> (h1 = k1 \<and> (h0 < k0 \<or> (h0 = k0 \<and> (m1 < n1 \<or> (m1 = n1 \<and> m0 \<le> n0))))))
       = (600 * h1 + 60 * h0 + 10 * m1 + m0 \<le> 600 * k1 + 60 * k0 + 10 * n1 + n0)"
proof -
  consider "h1 < k1" | "k1 < h1" | "h1 = k1" "h0 < k0" | "h1 = k1" "k0 < h0"
    | "h1 = k1" "h0 = k0" "m1 < n1" | "h1 = k1" "h0 = k0" "n1 < m1"
    | "h1 = k1" "h0 = k0" "m1 = n1"
    by linarith
  then show ?thesis
  proof cases
    case 1 with assms show ?thesis by linarith
  next
    case 2 with assms show ?thesis by linarith
  next
    case 3 with assms show ?thesis by linarith
  next
    case 4 with assms show ?thesis by linarith
  next
    case 5 with assms show ?thesis by linarith
  next
    case 6 with assms show ?thesis by linarith
  next
    case 7 with assms show ?thesis by linarith
  qed
qed

lemma strLe_digits:
  assumes "0 \<le> h1" "h1 \<le> 9" "0 \<le> h0" "h0 \<le> 9" "0 \<le> m1" "m1 \<le> 9" "0 \<le> m0" "m0 \<le> 9"
    "0 \<le> k1" "k1 \<le> 9" "0 \<le> k0" "k0 \<le> 9" "0 \<le> n1" "n1 \<le> 9" "0 \<le> n0" "n0 \<le> 9"
  shows "strLe [digitChar h1, digitChar h0, CHR '':'', digitChar m1, digitChar m0]
               [digitChar k1, digitChar k0, CHR '':'', digitChar n1, digitChar n0]
       = (h1 < k1 \<or> (h1 = k1 \<and> (h0 < k0 \<or> (h0 = k0 \<and> (m1 < n1 \<or> (m1 = n1 \<and> m0 \<le> n0))))))"
  using assms by (simp add: of_char_digitChar digitChar_eq) linarith

lemma strLe_hhmm:
  fixes h1 h0 m1 m0 k1 k0 n1 n0 :: int
  assumes "0 \<le> h1 \<and> h1 \<le> 9 \<and> 0 \<le> h0 \<and> h0 \<le> 9 \<and> 0 \<le> m1 \<and> m1 \<le> 5 \<and> 0 \<le> m0 \<and> m0 \<le> 9"
    and "0 \<le> k1 \<and> k1 \<le> 9 \<and> 0 \<le> k0 \<and> k0 \<le> 9 \<and> 0 \<le> n1 \<and> n1 \<le> 5 \<and> 0 \<le> n0 \<and> n0 \<le> 9"
  shows "strLe [digitChar h1, digitChar h0, CHR '':'', digitChar m1, digitChar m0]
               [digitChar k1, digitChar k0, CHR '':'', digitChar n1, digitChar n0]
       = (600 * h1 + 60 * h0 + 10 * m1 + m0 \<le> 600 * k1 + 60 * k0 + 10 * n1 + n0)"
proof -
  have "strLe [digitChar h1, digitChar h0, CHR '':'', digitChar m1, digitChar m0]
               [digitChar k1, digitChar k0, CHR '':'', digitChar n1, digitChar n0]
       = (h1 < k1 \<or> (h1 = k1 \<and> (h0 < k0 \<or> (h0 = k0 \<and> (m1 < n1 \<or> (m1 = n1 \<and> m0 \<le> n0))))))"
    using assms by (intro strLe_digits) linarith+
  also have "\<dots> = (600 * h1 + 60 * h0 + 10 * m1 + m0 \<le> 600 * k1 + 60 * k0 + 10 * n1 + n0)"
    using assms by (intro lex4) linarith+
  finally show ?thesis .
qed

lemma strLe_formatHHmm:
  assumes "0 \<le> a" "a < 1440" "0 \<le> b" "b < 1440"
  shows "strLe (formatHHmm a) (formatHHmm b) = (a \<le> b)"
proof -
  have "strLe (formatHHmm a) (formatHHmm b)
      = (600 * (a div 60 div 10) + 60 * (a div 60 mod 10) + 10 * (a mod 60 div 10)
                      + a mod 60 mod 10
                  \<le> 600 * (b div 60 div 10) + 60 * (b div 60 mod 10) + 10 * (b mod 60 div 10)
                      + b mod 60 mod 10)"
    unfolding formatHHmm_def
    by (rule strLe_hhmm [OF hhmm_digits [OF assms(1,2)] hhmm_digits [OF assms(3,4)]])
  also have "\<dots> = (a \<le> b)"
    by (simp only: hhmm_value [symmetric])
  finally show ?thesis .
qed

lemma isDigit_digitChar:
  assumes "0 \<le> n" "n \<le> 9"
  shows "isDigit (digitChar n)"
  using digit_cases [OF assms] by (auto simp: digitChar_def isDigit_def)

lemma digitVal_digitChar:
  assumes "0 \<le> n" "n \<le> 9"
  shows "digitVal (digitChar n) = n"
  using digit_cases [OF assms] by (auto simp: digitChar_def digitVal_def)

lemma match1to2_two_digits:
  assumes "isDigit a" "isDigit b"
  shows "match1to2 (a # b # r) = Some (digitVal a * 10 + digitVal b, r)"
  using assms by (simp add: match1to2_def digitsVal_def)

text \<open>
  The parser reads a printed time of day back, and every time of day it yields lies
  within the day.
\<close>

lemma parseHHmm_formatHHmm:
  assumes "k < 1440"
  shows "parseHHmm (formatHHmm (int k)) = Some k"
proof -
  from assms have r: "0 \<le> int k" "int k < 1440" by simp_all
  note d = hhmm_digits [OF r]
  let ?h1 = "int k div 60 div 10" and ?h0 = "int k div 60 mod 10"
  let ?m1 = "int k mod 60 div 10" and ?m0 = "int k mod 60 mod 10"
  have dg: "isDigit (digitChar ?h1)" "isDigit (digitChar ?h0)"
      "isDigit (digitChar ?m1)" "isDigit (digitChar ?m0)"
    using d by (simp_all add: isDigit_digitChar)
  have v: "digitVal (digitChar ?h1) = ?h1" "digitVal (digitChar ?h0) = ?h0"
      "digitVal (digitChar ?m1) = ?m1" "digitVal (digitChar ?m0) = ?m0"
    using d by (simp_all add: digitVal_digitChar)
  have hh: "match1to2 (formatHHmm (int k))
      = Some (?h1 * 10 + ?h0, [CHR '':'', digitChar ?m1, digitChar ?m0])"
    unfolding formatHHmm_def using match1to2_two_digits [OF dg(1,2)] v by simp
  have mm: "match1to2 [digitChar ?m1, digitChar ?m0] = Some (?m1 * 10 + ?m0, [])"
    using match1to2_two_digits [OF dg(3,4)] v by simp
  have h: "?h1 * 10 + ?h0 = int k div 60" and m: "?m1 * 10 + ?m0 = int k mod 60"
    by simp_all
  have lt: "int k div 60 < 24" "int k mod 60 < 60"
    using r by simp_all
  show ?thesis
    unfolding parseHHmm_def hh
    using lt by (simp add: skipColon_def mm h m Let_def)
qed

lemma parseHHmm_within_day:
  assumes "parseHHmm s = Some m"
  shows "m < 1440"
proof -
  from assms obtain x :: int where "m = nat (x mod 1440)"
    by (auto simp: parseHHmm_def Let_def split: if_splits)
  then show ?thesis by simp
qed

text \<open>
  For a requested time from 00:30 to 23:29 the window of the search holds exactly the
  slots in the format \<^verbatim>\<open>HH:mm\<close> at most 30 minutes away.  Before 00:30 and from 23:30
  on, the printed bounds wrap around midnight, the lower bound is the later time and no
  slot in that format lies between them.
\<close>

lemma window_is_thirty_minutes:
  assumes "30 \<le> m" "m + 30 < 1440" "k < 1440"
  shows "slotInWindow (startTimeStr m) (endTimeStr m) (formatHHmm (int k))
       = (m - 30 \<le> k \<and> k \<le> m + 30)"
proof -
  note k = assms(3)
  have lo: "startTimeStr m = formatHHmm (int m - 30)"
    using assms(1,2) by (simp add: startTimeStr_def)
  have hi: "endTimeStr m = formatHHmm (int m + 30)"
    using assms(1,2) by (simp add: endTimeStr_def)
  have "strLe (formatHHmm (int m - 30)) (formatHHmm (int k)) = (int m - 30 \<le> int k)"
    using assms(1,2) k by (intro strLe_formatHHmm) linarith+
  moreover have "strLe (formatHHmm (int k)) (formatHHmm (int m + 30)) = (int k \<le> int m + 30)"
    using assms(1,2) k by (intro strLe_formatHHmm) linarith+
  ultimately show ?thesis
    unfolding slotInWindow_def lo hi using assms(1) by auto
qed

lemma window_wraps_at_midnight:
  "startTimeStr 1425 = ''23:15'' \<and> endTimeStr 1425 = ''00:15''
   \<and> \<not> slotInWindow (startTimeStr 1425) (endTimeStr 1425) ''23:30''
   \<and> \<not> slotInWindow (startTimeStr 1425) (endTimeStr 1425) ''23:45''"
  by (simp add: startTimeStr_def endTimeStr_def formatHHmm_def digitChar_def slotInWindow_def)

lemma window_empty_across_midnight:
  assumes "m < 30 \<or> 1410 \<le> m" "m < 1440" "k < 1440"
  shows "\<not> slotInWindow (startTimeStr m) (endTimeStr m) (formatHHmm (int k))"
proof -
  note k = assms(3)
  let ?lo = "(int m - 30) mod 1440" and ?hi = "(int m + 30) mod 1440"
  have r: "0 \<le> ?lo" "?lo < 1440" "0 \<le> ?hi" "?hi < 1440" by simp_all
  have gt: "?hi < ?lo"
  proof (cases "m < 30")
    case True
    have "?lo = (int m - 30 + 1440) mod 1440"
      by (simp only: mod_add_self2)
    also have "\<dots> = int m + 1410"
      using True by simp
    finally have "?lo = int m + 1410" .
    moreover have "?hi = int m + 30"
      using True by simp
    ultimately show ?thesis by simp
  next
    case False
    with assms(1,2) have m: "1410 \<le> m" "m < 1440" by simp_all
    have "?hi = (int m + 30 - 1440) mod 1440"
      by (simp only: minus_mod_self2)
    also have "\<dots> = int m - 1410"
      using m by simp
    finally have "?hi = int m - 1410" .
    moreover have "?lo = int m - 30"
      using m by simp
    ultimately show ?thesis by simp
  qed
  have "strLe (startTimeStr m) (formatHHmm (int k)) = (?lo \<le> int k)"
    unfolding startTimeStr_def using r k by (intro strLe_formatHHmm) simp_all
  moreover have "strLe (formatHHmm (int k)) (endTimeStr m) = (int k \<le> ?hi)"
    unfolding endTimeStr_def using r k by (intro strLe_formatHHmm) simp_all
  ultimately show ?thesis
    unfolding slotInWindow_def using gt by simp
qed

text \<open>
  The search in minutes, over restaurants whose slots are all in the format
  \<^verbatim>\<open>HH:mm\<close>.  With a valid date and a requested time \<open>m\<close> from 00:30 to 23:29, a
  restaurant that passes the initial query and holds at most one entry per date is in
  the result exactly when it is in the collection and has, on the entry stored for the
  search date, a table that is large enough and has a slot at most 30 minutes away from
  the requested time, both ends included.
\<close>

lemma search_window_in_minutes:
  assumes q: "qDate q \<noteq> []" "qTime q \<noteq> []" "p (qTime q) = Some m" "searchDate (qDate q) = Some sd"
    and m: "30 \<le> m" "m + 30 < 1440"
    and r: "initialQuery rx (location q) r" "distinct (map date (availableTables r))"
      "slotsInFormat r"
  shows "\<exists>res. searchRestaurants rx p rs q = Inr res
     \<and> (r \<in> set res \<longleftrightarrow>
          r \<in> set rs
          \<and> (\<exists>e \<in> set (availableTables r). date e = sd
               \<and> (\<exists>t \<in> set (tables e).
                     (\<forall>n. sizeFilter (qPartySize q) = Some n \<longrightarrow> n \<le> tableSize t)
                     \<and> (\<exists>k. formatHHmm (int k) \<in> set (availableTimes t) \<and> k < 1440
                            \<and> m - 30 \<le> k \<and> k \<le> m + 30))))"
proof -
  have w: "(\<exists>sl \<in> set (availableTimes t). strLe (startTimeStr m) sl \<and> strLe sl (endTimeStr m))
      = (\<exists>k. formatHHmm (int k) \<in> set (availableTimes t) \<and> k < 1440 \<and> m - 30 \<le> k \<and> k \<le> m + 30)"
    if e: "e \<in> set (availableTables r)" and t: "t \<in> set (tables e)" for e t
  proof
    assume "\<exists>sl \<in> set (availableTimes t). strLe (startTimeStr m) sl \<and> strLe sl (endTimeStr m)"
    then obtain sl where sl: "sl \<in> set (availableTimes t)"
      and le: "slotInWindow (startTimeStr m) (endTimeStr m) sl"
      by (auto simp: slotInWindow_def)
    from r(3) e t sl obtain k where k: "k < 1440" "sl = formatHHmm (int k)"
      unfolding slotsInFormat_def by blast
    from le window_is_thirty_minutes [OF m k(1)] k sl
    show "\<exists>k. formatHHmm (int k) \<in> set (availableTimes t) \<and> k < 1440 \<and> m - 30 \<le> k \<and> k \<le> m + 30"
      by auto
  next
    assume "\<exists>k. formatHHmm (int k) \<in> set (availableTimes t) \<and> k < 1440 \<and> m - 30 \<le> k \<and> k \<le> m + 30"
    then obtain k where k: "formatHHmm (int k) \<in> set (availableTimes t)" "k < 1440"
      "m - 30 \<le> k \<and> k \<le> m + 30"
      by blast
    from window_is_thirty_minutes [OF m k(2)] k(3)
    have "slotInWindow (startTimeStr m) (endTimeStr m) (formatHHmm (int k))"
      by simp
    with k(1) show "\<exists>sl \<in> set (availableTimes t). strLe (startTimeStr m) sl \<and> strLe sl (endTimeStr m)"
      unfolding slotInWindow_def by blast
  qed
  have "pipelineMatch sd (sizeFilter (qPartySize q)) (startTimeStr m) (endTimeStr m) r
      = (\<exists>e \<in> set (availableTables r). date e = sd
               \<and> (\<exists>t \<in> set (tables e).
                     (\<forall>n. sizeFilter (qPartySize q) = Some n \<longrightarrow> n \<le> tableSize t)
                     \<and> (\<exists>k. formatHHmm (int k) \<in> set (availableTimes t) \<and> k < 1440
                            \<and> m - 30 \<le> k \<and> k \<le> m + 30)))"
    unfolding pipelineMatch_iff [OF r(2)] matchingTable_iff using w by blast
  then show ?thesis
    using q r(1) by (auto simp add: searchRestaurants_def)
qed

text \<open>
  With a requested time before 00:30 or from 23:30 on, the search finds no restaurant
  whose slots are all in the format \<^verbatim>\<open>HH:mm\<close>, whatever slots it offers.
\<close>

lemma search_empty_across_midnight:
  assumes q: "qDate q \<noteq> []" "qTime q \<noteq> []" "p (qTime q) = Some m" "searchDate (qDate q) = Some sd"
    and m: "m < 30 \<or> 1410 \<le> m" "m < 1440"
    and rs: "\<forall>r \<in> set rs. slotsInFormat r"
  shows "searchRestaurants rx p rs q = Inr []"
proof -
  have "\<not> pipelineMatch sd sz (startTimeStr m) (endTimeStr m) r" if r: "r \<in> set rs" for r sz
  proof
    assume "pipelineMatch sd sz (startTimeStr m) (endTimeStr m) r"
    then obtain e es where f: "filter (\<lambda>at. date at = sd) (availableTables r) = e # es"
      and t: "filter (matchingTable sz (startTimeStr m) (endTimeStr m)) (tables e) \<noteq> []"
      by (auto simp: pipelineMatch_def split: list.splits)
    from f have e: "e \<in> set (availableTables r)"
    proof -
      have "e \<in> set (filter (\<lambda>at. date at = sd) (availableTables r))"
        unfolding f by simp
      then show ?thesis by simp
    qed
    from t obtain t' where t': "t' \<in> set (tables e)"
      and mt: "matchingTable sz (startTimeStr m) (endTimeStr m) t'"
      by (auto simp: filter_empty_conv)
    from mt obtain sl where sl: "sl \<in> set (availableTimes t')"
      and le: "slotInWindow (startTimeStr m) (endTimeStr m) sl"
      by (auto simp: matchingTable_iff slotInWindow_def)
    from rs r e t' sl obtain k where k: "k < 1440" "sl = formatHHmm (int k)"
      unfolding slotsInFormat_def by blast
    from window_empty_across_midnight [OF m k(1)] le k(2) show False
      by simp
  qed
  then show ?thesis
    using q by (simp add: searchRestaurants_def filter_empty_conv)
qed

end
